theory Spec2Isabelle
  imports Complex_Main
begin

section \<open>User statistics (models/User.js)\<close>

text \<open>
  The \<open>users\<close> table, restricted to the columns that the settlement cascade and the
  ranking computation read or write. The integer columns hold JavaScript numbers with
  integral values; they are modelled as unbounded integers.
\<close>

datatype user_status = UserActive | UserInactive | UserBanned

record user =
  usr_id :: nat
  usr_status :: user_status
  usr_level :: int
  usr_total_score :: int
  usr_current_score :: int
  usr_total_recommends :: int
  usr_success_recommends :: int
  usr_failed_recommends :: int
  usr_current_streak :: int
  usr_max_streak :: int

text \<open>
  \<open>User.prototype.updateStats(isSuccess)\<close>. The assignments are applied in the order of the
  source: the streak is incremented first, so the bonus tests read the new streak.
\<close>

definition scoreGain :: "int \<Rightarrow> int" where
  "scoreGain streak =
     10 + (if streak \<ge> 3 then 20 else 0) + (if streak \<ge> 5 then 50 else 0)"

definition updateStats :: "bool \<Rightarrow> user \<Rightarrow> user" where
  "updateStats isSuccess u =
     (let u1 =
        (if isSuccess then
           (let a = u\<lparr>usr_success_recommends := usr_success_recommends u + 1\<rparr>;
                b = a\<lparr>usr_current_streak := usr_current_streak a + 1\<rparr>;
                c = b\<lparr>usr_max_streak := max (usr_max_streak b) (usr_current_streak b)\<rparr>;
                g = scoreGain (usr_current_streak c);
                d = c\<lparr>usr_total_score := usr_total_score c + g\<rparr>
            in d\<lparr>usr_current_score := usr_current_score d + g\<rparr>)
         else
           (let a = u\<lparr>usr_failed_recommends := usr_failed_recommends u + 1\<rparr>;
                b = a\<lparr>usr_current_streak := 0\<rparr>
            in b\<lparr>usr_current_score := max 0 (usr_current_score b - 5)\<rparr>));
          u2 = u1\<lparr>usr_total_recommends := usr_total_recommends u1 + 1\<rparr>;
          newLevel = usr_total_score u2 div 1000 + 1
      in if newLevel > usr_level u2 then u2\<lparr>usr_level := newLevel\<rparr> else u2)"

section \<open>Strings of the platform\<close>

text \<open>
  The built-in string functions that the period functions use, for ASCII strings.
  \<open>split sep s\<close> is \<open>s.split(sep)\<close> for a non-empty separator; the accumulator holds
  the piece being read.
\<close>

function split_acc :: "string \<Rightarrow> string \<Rightarrow> string \<Rightarrow> string list" where
  "split_acc sep acc [] = [acc]"
| "split_acc sep acc (c # s) =
     (if sep \<noteq> [] \<and> take (length sep) (c # s) = sep
      then acc # split_acc sep [] (drop (length sep) (c # s))
      else split_acc sep (acc @ [c]) s)"
  by pat_completeness auto
termination
  by (relation "measure (\<lambda>(sep, acc, s). length s)") auto

definition split :: "string \<Rightarrow> string \<Rightarrow> string list" where
  "split sep s = split_acc sep [] s"

text \<open>\<open>parts[i]\<close>: \<open>None\<close> is \<open>undefined\<close>.\<close>

fun js_index :: "string list \<Rightarrow> nat \<Rightarrow> string option" where
  "js_index [] i = None"
| "js_index (x # xs) 0 = Some x"
| "js_index (x # xs) (Suc i) = js_index xs i"

definition isSpace :: "char \<Rightarrow> bool" where
  "isSpace c = ((of_char c :: nat) = 32 \<or> (9 \<le> (of_char c :: nat) \<and> (of_char c :: nat) \<le> 13))"

definition isDigit :: "char \<Rightarrow> bool" where
  "isDigit c = (48 \<le> (of_char c :: nat) \<and> (of_char c :: nat) \<le> 57)"

definition digitVal :: "char \<Rightarrow> nat" where
  "digitVal c = of_char c - 48"

definition isHexDigit :: "char \<Rightarrow> bool" where
  "isHexDigit c =
     (isDigit c \<or> (65 \<le> (of_char c :: nat) \<and> (of_char c :: nat) \<le> 70)
      \<or> (97 \<le> (of_char c :: nat) \<and> (of_char c :: nat) \<le> 102))"

definition hexVal :: "char \<Rightarrow> nat" where
  "hexVal c =
     (if isDigit c then of_char c - 48
      else if (of_char c :: nat) \<le> 70 then of_char c - 55
      else of_char c - 87)"

definition digitsVal :: "nat \<Rightarrow> (char \<Rightarrow> nat) \<Rightarrow> string \<Rightarrow> nat" where
  "digitsVal radix val ds = foldl (\<lambda>a c. radix * a + val c) 0 ds"

text \<open>
  \<open>parseInt(s)\<close> without a radix: leading white space, an optional sign, then
  hexadecimal digits after \<open>0x\<close> or \<open>0X\<close>, decimal digits otherwise; \<open>None\<close> is NaN.
  The value is an unbounded integer.
\<close>

definition parseDigits :: "string \<Rightarrow> nat option" where
  "parseDigits u =
     (if take 2 u = ''0x'' \<or> take 2 u = ''0X'' then
        (let ds = takeWhile isHexDigit (drop 2 u)
         in if ds = [] then None else Some (digitsVal 16 hexVal ds))
      else
        (let ds = takeWhile isDigit u
         in if ds = [] then None else Some (digitsVal 10 digitVal ds)))"

definition parseInt :: "string \<Rightarrow> int option" where
  "parseInt s =
     (let t = dropWhile isSpace s in
      case t of
        [] \<Rightarrow> None
      | c # r \<Rightarrow>
          if c = CHR ''-'' then map_option (\<lambda>n. - int n) (parseDigits r)
          else if c = CHR ''+'' then map_option int (parseDigits r)
          else map_option int (parseDigits t))"

text \<open>\<open>parseInt(x)\<close> for a value that may be \<open>undefined\<close>.\<close>

definition parseIntU :: "string option \<Rightarrow> int option" where
  "parseIntU x = (case x of None \<Rightarrow> None | Some s \<Rightarrow> parseInt s)"

text \<open>The decimal representation of an integer, as a template literal prints it.\<close>

definition digitChar :: "nat \<Rightarrow> char" where
  "digitChar n = ''0123456789'' ! n"

fun natToString :: "nat \<Rightarrow> string" where
  "natToString n =
     (if n < 10 then [digitChar n]
      else natToString (n div 10) @ [digitChar (n mod 10)])"

declare natToString.simps [simp del]

definition intToString :: "int \<Rightarrow> string" where
  "intToString i = (if i < 0 then CHR ''-'' # natToString (nat (- i)) else natToString (nat i))"

text \<open>A number that may be NaN, and a string that may be \<open>undefined\<close>, in a template literal.\<close>

definition numToString :: "int option \<Rightarrow> string" where
  "numToString x = (case x of None \<Rightarrow> ''NaN'' | Some i \<Rightarrow> intToString i)"

definition strToString :: "string option \<Rightarrow> string" where
  "strToString x = (case x of None \<Rightarrow> ''undefined'' | Some s \<Rightarrow> s)"

text \<open>\<open>s.padStart(2, "0")\<close>.\<close>

definition padStart2 :: "string \<Rightarrow> string" where
  "padStart2 s = replicate (2 - length s) (CHR ''0'') @ s"

section \<open>Numbers and values of the platform\<close>

text \<open>
  A JavaScript number: a finite double, an infinity or NaN. A finite double is
  represented by the real it denotes; the sign of a zero is not represented.
\<close>

datatype jsnum = Fin real | PosInf | NegInf | NaN

text \<open>
  The binary exponent of a positive real: \<open>binExp n x\<close> is the \<open>e\<close> with
  \<open>2 ^ e \<le> x < 2 ^ (e + 1)\<close>, found in at most \<open>n\<close> halvings or doublings.
\<close>

fun binExp :: "nat \<Rightarrow> real \<Rightarrow> int" where
  "binExp n x =
     (if n = 0 then 0
      else if x \<ge> 2 then binExp (n - 1) (x / 2) + 1
      else if x < 1 then binExp (n - 1) (x * 2) - 1
      else 0)"

declare binExp.simps [simp del]

definition pow2 :: "int \<Rightarrow> real" where
  "pow2 e = (if e \<ge> 0 then 2 ^ nat e else 1 / 2 ^ nat (- e))"

definition pow10 :: "int \<Rightarrow> real" where
  "pow10 e = (if e \<ge> 0 then 10 ^ nat e else 1 / 10 ^ nat (- e))"

text \<open>Rounding to the nearest integer, a tie to the even one.\<close>

definition roundEven :: "real \<Rightarrow> int" where
  "roundEven x =
     (let f = \<lfloor>x\<rfloor>; d = x - real_of_int f
      in if d < 1 / 2 then f else if d > 1 / 2 then f + 1 else if even f then f else f + 1)"

text \<open>
  The double nearest to a real (binary64, round to nearest, ties to even): 53 significant
  bits, the least exponent -1022 (below it the spacing stays \<open>2 ^ -1074\<close>), and an
  infinity from \<open>2 ^ 1024\<close> on. The 2200 steps of \<open>binExp\<close> reach beyond both ends of
  that range, where the exponent no longer matters. Every arithmetic operation on
  doubles returns the double nearest to the exact result.
\<close>

definition toDouble :: "real \<Rightarrow> jsnum" where
  "toDouble x =
     (if x = 0 then Fin 0
      else
        (let a = \<bar>x\<bar>;
             e = max (binExp 2200 a) (- 1022);
             ulp = pow2 (e - 52);
             r = real_of_int (roundEven (a / ulp)) * ulp
         in if r \<ge> pow2 1024 then (if x > 0 then PosInf else NegInf)
            else Fin (if x > 0 then r else - r)))"

text \<open>\<open>- a\<close>, \<open>Math.abs(a)\<close>, \<open>a - b\<close>, \<open>a * b\<close> and \<open>a / b\<close> on numbers.\<close>

fun js_neg :: "jsnum \<Rightarrow> jsnum" where
  "js_neg (Fin x) = Fin (- x)"
| "js_neg PosInf = NegInf"
| "js_neg NegInf = PosInf"
| "js_neg NaN = NaN"

fun js_abs :: "jsnum \<Rightarrow> jsnum" where
  "js_abs (Fin x) = Fin \<bar>x\<bar>"
| "js_abs PosInf = PosInf"
| "js_abs NegInf = PosInf"
| "js_abs NaN = NaN"

fun js_sub :: "jsnum \<Rightarrow> jsnum \<Rightarrow> jsnum" where
  "js_sub NaN b = NaN"
| "js_sub a NaN = NaN"
| "js_sub (Fin x) (Fin y) = toDouble (x - y)"
| "js_sub (Fin x) PosInf = NegInf"
| "js_sub (Fin x) NegInf = PosInf"
| "js_sub PosInf PosInf = NaN"
| "js_sub PosInf b = PosInf"
| "js_sub NegInf NegInf = NaN"
| "js_sub NegInf b = NegInf"

fun js_mul :: "jsnum \<Rightarrow> jsnum \<Rightarrow> jsnum" where
  "js_mul NaN b = NaN"
| "js_mul a NaN = NaN"
| "js_mul (Fin x) (Fin y) = toDouble (x * y)"
| "js_mul (Fin x) b = (if x = 0 then NaN else if x > 0 then b else js_neg b)"
| "js_mul a (Fin y) = (if y = 0 then NaN else if y > 0 then a else js_neg a)"
| "js_mul PosInf b = b"
| "js_mul NegInf b = js_neg b"

text \<open>
  In a division by zero the divisor is the positive zero: the divisors below are entry
  prices read from a \<open>DECIMAL\<close> column, which has no negative zero.
\<close>

fun js_div :: "jsnum \<Rightarrow> jsnum \<Rightarrow> jsnum" where
  "js_div NaN b = NaN"
| "js_div a NaN = NaN"
| "js_div (Fin x) (Fin y) =
     (if y \<noteq> 0 then toDouble (x / y)
      else if x > 0 then PosInf else if x < 0 then NegInf else NaN)"
| "js_div (Fin x) b = Fin 0"
| "js_div PosInf (Fin y) = (if y \<ge> 0 then PosInf else NegInf)"
| "js_div NegInf (Fin y) = (if y \<ge> 0 then NegInf else PosInf)"
| "js_div a b = NaN"

text \<open>\<open>x > c\<close> and \<open>x >= c\<close> for a finite \<open>c\<close>; comparisons with NaN are false.\<close>

fun js_gt :: "jsnum \<Rightarrow> real \<Rightarrow> bool" where
  "js_gt (Fin x) c = (x > c)"
| "js_gt PosInf c = True"
| "js_gt NegInf c = False"
| "js_gt NaN c = False"

fun js_ge :: "jsnum \<Rightarrow> real \<Rightarrow> bool" where
  "js_ge (Fin x) c = (x \<ge> c)"
| "js_ge PosInf c = True"
| "js_ge NegInf c = False"
| "js_ge NaN c = False"

text \<open>
  The conversion of a string to a number (\<open>Number(s)\<close>, as the operators \<open>-\<close> and \<open>>\<close>
  apply it): white space is trimmed; the empty string is 0; then a binary, octal or
  hexadecimal integer, or an optional sign before \<open>Infinity\<close> or a decimal literal with
  an optional fraction and exponent; anything else is NaN.
\<close>

definition isStrWhiteSpace :: "char \<Rightarrow> bool" where
  "isStrWhiteSpace c = (isSpace c \<or> (of_char c :: nat) = 160)"

definition trim :: "string \<Rightarrow> string" where
  "trim s = rev (dropWhile isStrWhiteSpace (rev (dropWhile isStrWhiteSpace s)))"

definition isOctDigit :: "char \<Rightarrow> bool" where
  "isOctDigit c = (48 \<le> (of_char c :: nat) \<and> (of_char c :: nat) \<le> 55)"

definition isBinDigit :: "char \<Rightarrow> bool" where
  "isBinDigit c = (c = CHR ''0'' \<or> c = CHR ''1'')"

text \<open>A sign in front of a string: whether it is a minus, and the rest.\<close>

definition splitSign :: "string \<Rightarrow> bool \<times> string" where
  "splitSign s =
     (case s of
        [] \<Rightarrow> (False, [])
      | c # r \<Rightarrow>
          if c = CHR ''-'' then (True, r) else if c = CHR ''+'' then (False, r) else (False, s))"

text \<open>The exponent part that ends a decimal literal; an absent one is 0.\<close>

definition exponentPart :: "string \<Rightarrow> int option" where
  "exponentPart s =
     (case s of
        [] \<Rightarrow> Some 0
      | c # r \<Rightarrow>
          if c = CHR ''e'' \<or> c = CHR ''E'' then
            (case splitSign r of
               (neg, ds) \<Rightarrow>
                 if ds \<noteq> [] \<and> list_all isDigit ds
                 then Some ((if neg then - 1 else 1) * int (digitsVal 10 digitVal ds))
                 else None)
          else None)"

definition decimalLiteral :: "string \<Rightarrow> jsnum option" where
  "decimalLiteral s =
     (let ip = takeWhile isDigit s;
          r1 = dropWhile isDigit s;
          dot = (r1 \<noteq> [] \<and> hd r1 = CHR ''.'');
          fp = (if dot then takeWhile isDigit (tl r1) else []);
          r2 = (if dot then dropWhile isDigit (tl r1) else r1)
      in if ip = [] \<and> fp = [] then None
         else (case exponentPart r2 of
                 None \<Rightarrow> None
               | Some e \<Rightarrow>
                   Some (toDouble (real (digitsVal 10 digitVal (ip @ fp))
                                     * pow10 (e - int (length fp))))))"

definition radixLiteral :: "nat \<Rightarrow> (char \<Rightarrow> bool) \<Rightarrow> (char \<Rightarrow> nat) \<Rightarrow> string \<Rightarrow> jsnum" where
  "radixLiteral radix isD val ds =
     (if ds \<noteq> [] \<and> list_all isD ds then toDouble (real (digitsVal radix val ds)) else NaN)"

definition strToNumber :: "string \<Rightarrow> jsnum" where
  "strToNumber s =
     (let t = trim s in
      if t = [] then Fin 0
      else if take 2 t = ''0x'' \<or> take 2 t = ''0X'' then radixLiteral 16 isHexDigit hexVal (drop 2 t)
      else if take 2 t = ''0o'' \<or> take 2 t = ''0O'' then radixLiteral 8 isOctDigit digitVal (drop 2 t)
      else if take 2 t = ''0b'' \<or> take 2 t = ''0B'' then radixLiteral 2 isBinDigit digitVal (drop 2 t)
      else
        (case splitSign t of
           (neg, u) \<Rightarrow>
             if u = ''Infinity'' then (if neg then NegInf else PosInf)
             else (case decimalLiteral u of
                     None \<Rightarrow> NaN
                   | Some v \<Rightarrow> if neg then js_neg v else v)))"

text \<open>
  The values that reach a settlement as a price. The exit price of a request is whatever
  the body holds, since the controller does not convert it: a number (\<open>JNum x\<close> is the
  number written \<open>x\<close>), a string, a boolean, or an array or object (\<open>JObj s\<close>, where \<open>s\<close>
  is its conversion to a string). A \<open>DECIMAL\<close> column is read back as a string:
  \<open>JDec d\<close> is the string that a column holding the decimal \<open>d\<close> is read as.
  \<open>null\<close> and \<open>undefined\<close> are \<open>None\<close>.
\<close>

datatype jsval = JNum real | JStr string | JBool bool | JObj string | JDec real

definition toNumber :: "jsval \<Rightarrow> jsnum" where
  "toNumber v =
     (case v of
        JNum x \<Rightarrow> toDouble x
      | JStr s \<Rightarrow> strToNumber s
      | JBool b \<Rightarrow> Fin (if b then 1 else 0)
      | JObj s \<Rightarrow> strToNumber s
      | JDec d \<Rightarrow> toDouble d)"

text \<open>
  Truthiness: \<open>null\<close>, \<open>undefined\<close>, the numbers 0 and NaN, the empty string and
  \<open>false\<close> are falsy; every other value is truthy, a non-empty string such as \<open>"0"\<close> or
  \<open>"0.00"\<close> included.
\<close>

fun truthyNum :: "jsnum \<Rightarrow> bool" where
  "truthyNum (Fin x) = (x \<noteq> 0)"
| "truthyNum PosInf = True"
| "truthyNum NegInf = True"
| "truthyNum NaN = False"

definition truthyVal :: "jsval \<Rightarrow> bool" where
  "truthyVal v =
     (case v of
        JNum x \<Rightarrow> truthyNum (toDouble x)
      | JStr s \<Rightarrow> s \<noteq> []
      | JBool b \<Rightarrow> b
      | JObj s \<Rightarrow> True
      | JDec d \<Rightarrow> True)"

definition truthy :: "jsval option \<Rightarrow> bool" where
  "truthy p = (case p of None \<Rightarrow> False | Some v \<Rightarrow> truthyVal v)"

text \<open>\<open>a || b\<close>.\<close>

definition js_or :: "jsval option \<Rightarrow> jsval option \<Rightarrow> jsval option" where
  "js_or a b = (if truthy a then a else b)"

section \<open>Predictions and their settlement (models/Recommend.js)\<close>

datatype rec_status = Active | Success | Failed | Expired | Cancelled

datatype hold_period = OneWeek | TwoWeeks | OneMonth | ThreeMonths

text \<open>
  A row of \<open>recommends\<close>, with the columns the operations below read or write. The
  predicted change, the entry price and the current price are the decimals their columns
  hold, \<open>None\<close> for \<open>NULL\<close>; an instance loaded from the table reads them as strings
  (\<open>JDec\<close>). The exit price and the two returns hold what an operation assigned to them;
  the conversion by their columns is not modelled. Times are milliseconds.
\<close>

record recommend =
  rec_id :: nat
  rec_user_id :: nat
  rec_stock_code :: string
  rec_predict_change :: real
  rec_hold_period :: hold_period
  rec_entry_price :: real
  rec_current_price :: "real option"
  rec_exit_price :: "jsval option"
  rec_current_return :: "jsnum option"
  rec_actual_return :: "jsnum option"
  rec_start_date :: int
  rec_end_date :: int
  rec_settled_at :: "int option"
  rec_status :: rec_status

text \<open>
  \<open>((price - entry) / entry) * 100\<close> in doubles. A zero entry price gives an infinity,
  or NaN for \<open>0 / 0\<close>.
\<close>

definition pctReturn :: "jsnum \<Rightarrow> jsnum \<Rightarrow> jsnum" where
  "pctReturn price entry = js_mul (js_div (js_sub price entry) entry) (Fin 100)"

text \<open>\<open>100 - Math.abs(actual - predict)\<close> in doubles.\<close>

definition accuracyScore :: "jsnum \<Rightarrow> jsnum \<Rightarrow> jsnum" where
  "accuracyScore actual predict = js_sub (Fin 100) (js_abs (js_sub actual predict))"

datatype direction = Up | Down

text \<open>
  The status chosen by \<open>settle\<close> from the predicted change and the actual return, both
  as numbers.
\<close>

definition settleStatus :: "jsnum \<Rightarrow> jsnum \<Rightarrow> rec_status" where
  "settleStatus predict_change actual_return =
     (let predictDirection = (if js_gt predict_change 0 then Up else Down);
          actualDirection = (if js_gt actual_return 0 then Up else Down)
      in if predictDirection = actualDirection then
           (let acc = accuracyScore actual_return predict_change
            in if js_ge acc 80 then Success
               else if js_ge acc 50 then Success
               else Failed)
         else Failed)"

text \<open>
  The store: the \<open>recommends\<close> and \<open>users\<close> tables, and the next value of the
  auto-increment key of \<open>recommends\<close>.
\<close>

record store =
  st_recommends :: "recommend list"
  st_users :: "user list"
  st_next_id :: nat

definition findByPk :: "store \<Rightarrow> nat \<Rightarrow> recommend option" where
  "findByPk st i = find (\<lambda>r. rec_id r = i) (st_recommends st)"

definition findUser :: "store \<Rightarrow> nat \<Rightarrow> user option" where
  "findUser st i = find (\<lambda>u. usr_id u = i) (st_users st)"

text \<open>\<open>instance.save()\<close>: the row with the instance's key takes the instance's values.\<close>

definition save :: "recommend \<Rightarrow> store \<Rightarrow> store" where
  "save r st =
     st\<lparr>st_recommends := map (\<lambda>x. if rec_id x = rec_id r then r else x) (st_recommends st)\<rparr>"

definition saveUser :: "user \<Rightarrow> store \<Rightarrow> store" where
  "saveUser u st =
     st\<lparr>st_users := map (\<lambda>x. if usr_id x = usr_id u then u else x) (st_users st)\<rparr>"

datatype error =
    PriceUnavailable
  | NotFound
  | NoPermission
  | NotActive
  | AlreadyRecommended

text \<open>
  \<open>Recommend.prototype.settle(exitPrice)\<close> on the instance \<open>r\<close>, loaded from the
  table, at time \<open>now\<close>. The current price of a loaded instance is a string or
  \<open>null\<close>. The exception is raised before any field is assigned. The save is modelled as
  succeeding. After the save, the author's statistics are updated when the author exists.
  The refresh of the symbol's aggregate that follows writes to the \<open>stocks\<close> table only,
  which is not part of this store.
\<close>

definition settle :: "store \<Rightarrow> recommend \<Rightarrow> jsval option \<Rightarrow> int \<Rightarrow> error + (recommend \<times> store)" where
  "settle st r exitPrice now =
     (let finalPrice = js_or exitPrice (map_option JDec (rec_current_price r)) in
      case finalPrice of
        None \<Rightarrow> Inl PriceUnavailable
      | Some fp \<Rightarrow>
          if \<not> truthyVal fp then Inl PriceUnavailable
          else
            (let ar = pctReturn (toNumber fp) (toDouble (rec_entry_price r));
                 r' = r\<lparr>rec_exit_price := Some fp,
                        rec_actual_return := Some ar,
                        rec_settled_at := Some now,
                        rec_status := settleStatus (toDouble (rec_predict_change r)) ar\<rparr>;
                 st1 = save r' st;
                 st2 = (case findUser st1 (rec_user_id r') of
                          None \<Rightarrow> st1
                        | Some u \<Rightarrow> saveUser (updateStats (rec_status r' = Success) u) st1)
             in Inr (r', st2)))"

text \<open>
  \<open>Recommend.prototype.checkExpired()\<close> at time \<open>now\<close>. An exception of \<open>settle\<close>
  propagates.
\<close>

definition checkExpired :: "store \<Rightarrow> recommend \<Rightarrow> int \<Rightarrow> error + (recommend \<times> store)" where
  "checkExpired st r now =
     (if rec_status r = Active \<and> now > rec_end_date r then
        (case settle st r None now of
           Inl e \<Rightarrow> Inl e
         | Inr (r', st') \<Rightarrow>
             if rec_status r' = Active then
               (let r'' = r'\<lparr>rec_status := Expired\<rparr> in Inr (r'', save r'' st'))
             else Inr (r', st'))
      else Inr (r, st))"

text \<open>
  \<open>Recommend.prototype.updateCurrentReturn(currentPrice)\<close>, for a price that the
  column can hold.
\<close>

definition updateCurrentReturn :: "store \<Rightarrow> recommend \<Rightarrow> real \<Rightarrow> recommend \<times> store" where
  "updateCurrentReturn st r currentPrice =
     (let r' = r\<lparr>rec_current_price := Some currentPrice,
                 rec_current_return :=
                   Some (pctReturn (toDouble currentPrice) (toDouble (rec_entry_price r)))\<rparr>
      in (r', save r' st))"

section \<open>The operations on the store (controllers/recommendController.js, utils/stockUpdateJob.js)\<close>

text \<open>
  Each operation returns the error it raised, if any, and the store it leaves behind.
\<close>

text \<open>
  \<open>settleRecommend\<close>: the manual settlement of prediction \<open>i\<close>. The exit price is the
  field of the request body as it arrived; the controller does not look at the result of
  the route's validators.
\<close>

definition settleRecommend :: "store \<Rightarrow> nat \<Rightarrow> jsval option \<Rightarrow> int \<Rightarrow> error option \<times> store" where
  "settleRecommend st i exitPrice now =
     (case findByPk st i of
        None \<Rightarrow> (Some NotFound, st)
      | Some r \<Rightarrow>
          if rec_status r \<noteq> Active then (Some NotActive, st)
          else (case settle st r exitPrice now of
                  Inl e \<Rightarrow> (Some e, st)
                | Inr (r', st') \<Rightarrow> (None, st')))"

text \<open>
  \<open>deleteRecommend\<close>: the soft deletion of prediction \<open>i\<close> by user \<open>userId\<close>.
\<close>

definition deleteRecommend :: "store \<Rightarrow> nat \<Rightarrow> nat \<Rightarrow> error option \<times> store" where
  "deleteRecommend st i userId =
     (case findByPk st i of
        None \<Rightarrow> (Some NotFound, st)
      | Some r \<Rightarrow>
          if rec_user_id r \<noteq> userId then (Some NoPermission, st)
          else if rec_status r \<noteq> Active then (Some NotActive, st)
          else (None, save (r\<lparr>rec_status := Cancelled\<rparr>) st))"

text \<open>
  \<open>checkExpiredRecommends\<close>: every active prediction whose end date is before \<open>now\<close> is
  checked in turn; an exception of one check is recorded and the loop goes on. The query
  of this batch, and of \<open>settleExpiredRecommends\<close> below, is written with \<open>Op\<close>, which
  neither file imports; a batch whose query raises ends before it reads a prediction and
  leaves the store as it was, as the batch modelled here does on an empty result.
\<close>

fun checkExpiredLoop :: "store \<Rightarrow> recommend list \<Rightarrow> int \<Rightarrow> store" where
  "checkExpiredLoop st [] now = st"
| "checkExpiredLoop st (r # rs) now =
     (case checkExpired st r now of
        Inl e \<Rightarrow> checkExpiredLoop st rs now
      | Inr (r', st') \<Rightarrow> checkExpiredLoop st' rs now)"

definition checkExpiredRecommends :: "store \<Rightarrow> int \<Rightarrow> store" where
  "checkExpiredRecommends st now =
     checkExpiredLoop st
       (filter (\<lambda>r. rec_status r = Active \<and> rec_end_date r < now) (st_recommends st)) now"

text \<open>
  \<open>settleExpiredRecommends\<close> of the update job: every active prediction whose end date
  is not after \<open>now\<close> is settled at its current price. The first exception makes the job
  log and stop waiting; the settlements that were started are modelled as run in order,
  a failed one leaving the store as it was.
\<close>

fun settleLoop :: "store \<Rightarrow> recommend list \<Rightarrow> int \<Rightarrow> store" where
  "settleLoop st [] now = st"
| "settleLoop st (r # rs) now =
     (case settle st r None now of
        Inl e \<Rightarrow> settleLoop st rs now
      | Inr (r', st') \<Rightarrow> settleLoop st' rs now)"

definition settleExpiredRecommends :: "store \<Rightarrow> int \<Rightarrow> store" where
  "settleExpiredRecommends st now =
     settleLoop st
       (filter (\<lambda>r. rec_status r = Active \<and> rec_end_date r \<le> now) (st_recommends st)) now"

text \<open>
  \<open>updateRecommendReturns\<close> of the update job: every active prediction takes the
  current price of its stock (\<open>price code\<close>, \<open>None\<close> for \<open>null\<close>) and the return
  formatted by \<open>toFixed(2)\<close>; \<open>null\<close> counts as 0 in the subtraction. \<open>toFixed2\<close>
  gives the decimal that \<open>toFixed(2)\<close> prints for a double: the multiple of 0.01 nearest
  to its exact value, the larger one on a tie.
\<close>

definition toFixed2 :: "jsnum \<Rightarrow> jsnum" where
  "toFixed2 x =
     (case x of
        Fin v \<Rightarrow>
          if v < 0 then Fin (- (real_of_int \<lfloor>- v * 100 + 1 / 2\<rfloor> / 100))
          else Fin (real_of_int \<lfloor>v * 100 + 1 / 2\<rfloor> / 100)
      | _ \<Rightarrow> x)"

definition refreshOne :: "(string \<Rightarrow> real option) \<Rightarrow> recommend \<Rightarrow> recommend" where
  "refreshOne price r =
     (let currentPrice = price (rec_stock_code r);
          n = (case currentPrice of None \<Rightarrow> Fin 0 | Some x \<Rightarrow> toDouble x)
      in r\<lparr>rec_current_price := currentPrice,
            rec_current_return := Some (toFixed2 (pctReturn n (toDouble (rec_entry_price r))))\<rparr>)"

definition updateRecommendReturns :: "store \<Rightarrow> (string \<Rightarrow> real option) \<Rightarrow> store" where
  "updateRecommendReturns st price =
     st\<lparr>st_recommends :=
          map (\<lambda>r. if rec_status r = Active then refreshOne price r else r) (st_recommends st)\<rparr>"

text \<open>
  \<open>createRecommend\<close> by user \<open>userId\<close> at time \<open>now\<close>, after the validation of the
  request; the price and the predicted change are the decimals that the columns take.
  \<open>endDate\<close> is the end of the hold period as the platform's calendar computes it from
  \<open>now\<close>.
\<close>

definition newRecommend ::
  "nat \<Rightarrow> nat \<Rightarrow> string \<Rightarrow> real \<Rightarrow> real \<Rightarrow> hold_period \<Rightarrow> int \<Rightarrow> int \<Rightarrow> recommend" where
  "newRecommend i userId stockCode currentPrice predictChange holdPeriod now endDate =
     \<lparr>rec_id = i, rec_user_id = userId, rec_stock_code = stockCode,
      rec_predict_change = predictChange, rec_hold_period = holdPeriod,
      rec_entry_price = currentPrice, rec_current_price = Some currentPrice,
      rec_exit_price = None, rec_current_return = Some (Fin 0),
      rec_actual_return = None, rec_start_date = now, rec_end_date = endDate,
      rec_settled_at = None, rec_status = Active\<rparr>"

definition createRecommend ::
  "store \<Rightarrow> nat \<Rightarrow> string \<Rightarrow> real \<Rightarrow> real \<Rightarrow> hold_period \<Rightarrow> int \<Rightarrow> int \<Rightarrow> error option \<times> store" where
  "createRecommend st userId stockCode currentPrice predictChange holdPeriod now endDate =
     (case findUser st userId of
        None \<Rightarrow> (Some NotFound, st)
      | Some u \<Rightarrow>
          if list_ex (\<lambda>r. rec_user_id r = userId \<and> rec_stock_code r = stockCode
                          \<and> rec_status r = Active) (st_recommends st)
          then (Some AlreadyRecommended, st)
          else
            (let r = newRecommend (st_next_id st) userId stockCode currentPrice predictChange
                       holdPeriod now endDate
             in (None, st\<lparr>st_recommends := st_recommends st @ [r],
                           st_next_id := Suc (st_next_id st)\<rparr>)))"

section \<open>The life cycle of a prediction as a transition system\<close>

text \<open>The three fields that a settlement writes.\<close>

definition settledFields :: "recommend \<Rightarrow> jsval option \<times> jsnum option \<times> int option" where
  "settledFields r = (rec_exit_price r, rec_actual_return r, rec_settled_at r)"

text \<open>
  One step of the system: any of the operations above, with any arguments. The store is
  the one the operation leaves behind, whether it raised an error or not.
\<close>

inductive step :: "store \<Rightarrow> store \<Rightarrow> bool" where
  step_create:
    "step st (snd (createRecommend st userId stockCode currentPrice predictChange holdPeriod now endDate))"
| step_refresh: "step st (updateRecommendReturns st price)"
| step_update: "findByPk st i = Some r \<Longrightarrow> step st (snd (updateCurrentReturn st r currentPrice))"
| step_settle: "step st (snd (settleRecommend st i exitPrice now))"
| step_settle_job: "step st (settleExpiredRecommends st now)"
| step_check: "step st (checkExpiredRecommends st now)"
| step_check_one:
    "findByPk st i = Some r \<Longrightarrow>
       step st (case checkExpired st r now of Inl e \<Rightarrow> st | Inr p \<Rightarrow> snd p)"
| step_delete: "step st (snd (deleteRecommend st i userId))"

text \<open>The stores that can arise from an empty \<open>recommends\<close> table.\<close>

definition init_store :: "user list \<Rightarrow> store" where
  "init_store us = \<lparr>st_recommends = [], st_users = us, st_next_id = 1\<rparr>"

inductive reachable :: "store \<Rightarrow> bool" where
  reach_init: "reachable (init_store us)"
| reach_step: "reachable st \<Longrightarrow> step st st' \<Longrightarrow> reachable st'"

text \<open>Concrete data: an author and one prediction in several states.\<close>

definition ex_author :: user where
  "ex_author = \<lparr>usr_id = 7, usr_status = UserActive, usr_level = 1, usr_total_score = 50,
     usr_current_score = 50, usr_total_recommends = 2, usr_success_recommends = 2,
     usr_failed_recommends = 0, usr_current_streak = 2, usr_max_streak = 2\<rparr>"

definition ex_recommend :: recommend where
  "ex_recommend = newRecommend 1 7 ''600000'' 100 5 OneWeek 0 604800000"

definition ex_store :: store where
  "ex_store = \<lparr>st_recommends = [ex_recommend], st_users = [ex_author], st_next_id = 2\<rparr>"

definition ex_cancelled :: recommend where
  "ex_cancelled = ex_recommend\<lparr>rec_status := Cancelled\<rparr>"

definition ex_cancelled_store :: store where
  "ex_cancelled_store = \<lparr>st_recommends = [ex_cancelled], st_users = [ex_author], st_next_id = 2\<rparr>"

definition ex_unpriced :: recommend where
  "ex_unpriced = ex_recommend\<lparr>rec_current_price := None\<rparr>"

definition ex_unpriced_store :: store where
  "ex_unpriced_store = \<lparr>st_recommends = [ex_unpriced], st_users = [ex_author], st_next_id = 2\<rparr>"

definition ex_settled :: recommend where
  "ex_settled = ex_recommend\<lparr>rec_exit_price := Some (JNum 110), rec_actual_return := Some (Fin 10),
     rec_settled_at := Some 1000, rec_status := Success\<rparr>"

definition ex_settled_store :: store where
  "ex_settled_store =
     \<lparr>st_recommends = [ex_settled], st_users = [updateStats True ex_author], st_next_id = 2\<rparr>"

text \<open>
  The invariant of a row, the invariant of a store (keys are unique and below the next
  key, every row satisfies the row invariant), and the relation between the stores before
  and after a step that the proofs maintain.
\<close>

definition row_ok :: "recommend \<Rightarrow> bool" where
  "row_ok r =
     (if rec_status r = Active \<or> rec_status r = Cancelled
      then settledFields r = (None, None, None)
      else (rec_status r = Success \<or> rec_status r = Failed)
           \<and> rec_exit_price r \<noteq> None \<and> rec_actual_return r \<noteq> None \<and> rec_settled_at r \<noteq> None)"

definition store_ok :: "store \<Rightarrow> bool" where
  "store_ok st =
     (distinct (map rec_id (st_recommends st))
      \<and> list_all (\<lambda>r. rec_id r < st_next_id st \<and> row_ok r) (st_recommends st))"

definition keeps :: "store \<Rightarrow> store \<Rightarrow> bool" where
  "keeps st st' =
     (\<forall>i r. findByPk st i = Some r \<longrightarrow> rec_status r \<noteq> Active \<longrightarrow>
        (\<exists>r'. findByPk st' i = Some r' \<and> settledFields r' = settledFields r
              \<and> rec_status r' = rec_status r))"

section \<open>The calendar of the platform\<close>

text \<open>
  The platform's \<open>Date\<close>, as far as the period functions use it. Times are milliseconds.
  \<open>date_of y m d\<close> is \<open>new Date(y, m, d).getTime()\<close>, local midnight of day \<open>d\<close> of the
  month with index \<open>m\<close>; the other three are \<open>getFullYear\<close>, \<open>getMonth\<close> and
  \<open>getDay\<close> of a time.
\<close>

record platform =
  date_of :: "int \<Rightarrow> int \<Rightarrow> int \<Rightarrow> int"
  full_year :: "int \<Rightarrow> int"
  month_of :: "int \<Rightarrow> int"
  week_day :: "int \<Rightarrow> int"

section \<open>Ranking periods (models/Ranking.js)\<close>

datatype rank_type = Weekly | Monthly | Total

text \<open>\<open>Ranking.getCurrentPeriod(type)\<close> at time \<open>now\<close>.\<close>

definition getCurrentPeriod :: "platform \<Rightarrow> rank_type \<Rightarrow> int \<Rightarrow> string" where
  "getCurrentPeriod P t now =
     (case t of
        Weekly \<Rightarrow>
          (let year = full_year P now;
               startOfYear = date_of P year 0 1;
               days = (now - startOfYear) div (24 * 60 * 60 * 1000);
               week = (days + week_day P startOfYear + 1 + 6) div 7
           in intToString year @ ''-W'' @ padStart2 (intToString week))
      | Monthly \<Rightarrow>
          (let year = full_year P now;
               month = month_of P now + 1
           in intToString year @ ''-'' @ padStart2 (intToString month))
      | Total \<Rightarrow> ''total'')"

text \<open>
  \<open>Ranking.getPeriodRange(type, period)\<close>. A year or a week that does not parse makes
  the dates invalid.
\<close>

datatype window = Unbounded | Window int int | InvalidWindow

definition getPeriodRange :: "platform \<Rightarrow> rank_type \<Rightarrow> string \<Rightarrow> window" where
  "getPeriodRange P t period =
     (case t of
        Total \<Rightarrow> Unbounded
      | Weekly \<Rightarrow>
          (let parts = split ''-W'' period;
               year = js_index parts 0;
               week = js_index parts 1
           in case (parseIntU year, parseIntU week) of
                (Some y, Some w) \<Rightarrow>
                  (let startOfYear = date_of P y 0 1;
                       startOfWeek = startOfYear + (w - 1) * 7 * 24 * 60 * 60 * 1000;
                       endOfWeek = startOfWeek + 6 * 24 * 60 * 60 * 1000 + 23 * 60 * 60 * 1000
                                     + 59 * 60 * 1000 + 59 * 1000
                   in Window startOfWeek endOfWeek)
              | _ \<Rightarrow> InvalidWindow)
      | Monthly \<Rightarrow>
          (let parts = split ''-'' period;
               year = js_index parts 0;
               month = js_index parts 1
           in case (parseIntU year, parseIntU month) of
                (Some y, Some m) \<Rightarrow>
                  (let startOfMonth = date_of P y (m - 1) 1;
                       endOfMonth = date_of P y m 0 + 23 * 60 * 60 * 1000 + 59 * 60 * 1000
                                      + 59 * 1000 + 999
                   in Window startOfMonth endOfMonth)
              | _ \<Rightarrow> InvalidWindow))"

text \<open>\<open>Ranking.getPreviousPeriod(type, currentPeriod)\<close>. \<open>NaN > 1\<close> is false.\<close>

definition getPreviousPeriod :: "rank_type \<Rightarrow> string \<Rightarrow> string" where
  "getPreviousPeriod t currentPeriod =
     (case t of
        Total \<Rightarrow> ''total''
      | Weekly \<Rightarrow>
          (let parts = split ''-W'' currentPeriod;
               year = js_index parts 0;
               week = js_index parts 1;
               weekNum = parseIntU week
           in if (case weekNum of None \<Rightarrow> False | Some n \<Rightarrow> n > 1)
              then strToString year @ ''-W''
                     @ padStart2 (numToString (map_option (\<lambda>n. n - 1) weekNum))
              else numToString (map_option (\<lambda>y. y - 1) (parseIntU year)) @ ''-W52'')
      | Monthly \<Rightarrow>
          (let parts = split ''-'' currentPeriod;
               year = js_index parts 0;
               month = js_index parts 1;
               monthNum = parseIntU month
           in if (case monthNum of None \<Rightarrow> False | Some n \<Rightarrow> n > 1)
              then strToString year @ ''-''
                     @ padStart2 (numToString (map_option (\<lambda>n. n - 1) monthNum))
              else numToString (map_option (\<lambda>y. y - 1) (parseIntU year)) @ ''-12''))"

section \<open>Ranking snapshots (models/Ranking.js)\<close>

text \<open>
  The columns of \<open>recommends\<close>: the attributes that \<open>models/Recommend.js\<close> declares and
  the two timestamps that the connection's options add. The table is created from this
  declaration.
\<close>

definition recommendColumns :: "string list" where
  "recommendColumns =
     [''id'', ''user_id'', ''stock_code'', ''predict_change'', ''reason'', ''confidence'',
      ''hold_period'', ''entry_price'', ''current_price'', ''exit_price'', ''current_return'',
      ''actual_return'', ''start_date'', ''end_date'', ''settled_at'', ''status'',
      ''follow_count'', ''like_count'', ''view_count'', ''tags'', ''is_featured'',
      ''admin_comment'', ''created_at'', ''updated_at'']"

text \<open>
  The columns that the statistics query of \<open>calculateRankings\<close> names, in the order of
  the statement: in the counts, the average and the maximum, in the expression summed for
  the period score, and in the \<open>where\<close> clause.
\<close>

definition statsQueryColumns :: "string list" where
  "statsQueryColumns =
     [''id'', ''status'', ''actual_return'', ''current_streak'', ''user_id'', ''created_at'']"

text \<open>
  A row of \<open>recommends\<close>, with the columns of the table that the queries of
  \<open>calculateRankings\<close> address.
\<close>

record recommend_row =
  row_user_id :: nat
  row_created_at :: int
  row_status :: rec_status
  row_actual_return :: "real option"
  row_settled_at :: "int option"

text \<open>
  The badge labels are string literals of the source: the weekly, monthly and overall
  champion, the runner-up, the third place and the top ten.
\<close>

datatype badge = WeeklyChampion | MonthlyChampion | TotalChampion | RunnerUp | ThirdPlace | TopTen

text \<open>
  The object pushed for each user, and the snapshot row it becomes when the rank, the
  previous rank and the badge are assigned. \<open>rnk_is_active\<close> is the column default that
  the insertion applies.
\<close>

record ranking_stats =
  rnk_user_id :: nat
  rnk_ranking_type :: rank_type
  rnk_period :: string
  rnk_score :: int
  rnk_period_score :: int
  rnk_total_recommends :: int
  rnk_success_recommends :: int
  rnk_win_rate :: real
  rnk_avg_return :: real
  rnk_max_return :: real
  rnk_current_streak :: nat
  rnk_max_streak :: nat
  rnk_period_start :: "int option"
  rnk_period_end :: "int option"

record ranking = ranking_stats +
  rnk_rank :: nat
  rnk_previous_rank :: "nat option"
  rnk_badge :: "badge option"
  rnk_is_active :: bool

record rank_store =
  rs_users :: "user list"
  rs_recommends :: "recommend_row list"
  rs_rankings :: "ranking list"

text \<open>The active users, in table order.\<close>

definition activeUsers :: "rank_store \<Rightarrow> user list" where
  "activeUsers st = filter (\<lambda>u. usr_status u = UserActive) (rs_users st)"

text \<open>The error of a statement that the database rejects.\<close>

datatype query_error = UnknownColumn string

text \<open>
  The loop over the active users, for the store and the dates of the period. The first
  statement of its body is the statistics query on \<open>recommends\<close>, for the rows of the
  user created between the dates. The expression it sums for the period score reads
  \<open>current_streak\<close>, which is a column of \<open>users\<close> and of \<open>rankings\<close> but not of
  \<open>recommends\<close>: the database rejects the statement, whatever the rows are, and the
  exception leaves \<open>calculateRankings\<close>, which has no handler. So the loop pushes no
  object; it ends normally only when there is no active user.
\<close>

fun statisticsLoop :: "rank_store \<Rightarrow> window \<Rightarrow> user list \<Rightarrow> query_error + ranking_stats list" where
  "statisticsLoop st w [] = Inr []"
| "statisticsLoop st w (user # users) = Inl (UnknownColumn ''current_streak'')"



text \<open>
  The comparator of \<open>rankings.sort\<close>, and the sort itself: \<open>Array.prototype.sort\<close> is
  stable, so the result is the one of a stable insertion sort.
\<close>

definition compareRankings :: "ranking_stats \<Rightarrow> ranking_stats \<Rightarrow> real" where
  "compareRankings a b =
     (if rnk_score b \<noteq> rnk_score a then real_of_int (rnk_score b - rnk_score a)
      else if rnk_win_rate b \<noteq> rnk_win_rate a then rnk_win_rate b - rnk_win_rate a
      else rnk_avg_return b - rnk_avg_return a)"

fun insert_cmp :: "('a \<Rightarrow> 'a \<Rightarrow> real) \<Rightarrow> 'a \<Rightarrow> 'a list \<Rightarrow> 'a list" where
  "insert_cmp cmp x [] = [x]"
| "insert_cmp cmp x (y # ys) =
     (if cmp x y \<le> 0 then x # y # ys else y # insert_cmp cmp x ys)"

definition sort_cmp :: "('a \<Rightarrow> 'a \<Rightarrow> real) \<Rightarrow> 'a list \<Rightarrow> 'a list" where
  "sort_cmp cmp xs = foldr (insert_cmp cmp) xs []"

text \<open>The badge of the row at index \<open>i\<close>.\<close>

definition badgeFor :: "rank_type \<Rightarrow> nat \<Rightarrow> badge option" where
  "badgeFor t i =
     (if i = 0 then
        Some (if t = Weekly then WeeklyChampion
              else if t = Monthly then MonthlyChampion else TotalChampion)
      else if i = 1 then Some RunnerUp
      else if i = 2 then Some ThirdPlace
      else if i < 10 then Some TopTen
      else None)"

text \<open>
  \<open>previousRankMap[user_id] || null\<close>: the map is filled row by row, a later row for the
  same user replacing an earlier one, and a rank of 0 is falsy.
\<close>

definition previousRankMap :: "ranking list \<Rightarrow> nat \<Rightarrow> nat option" where
  "previousRankMap previousRankings = map_of (rev (map (\<lambda>r. (rnk_user_id r, rnk_rank r)) previousRankings))"

definition previousRankOf :: "(nat \<Rightarrow> nat option) \<Rightarrow> nat \<Rightarrow> nat option" where
  "previousRankOf m uid = (case m uid of None \<Rightarrow> None | Some k \<Rightarrow> if k = 0 then None else Some k)"

text \<open>The loop that assigns ranks and badges, from index \<open>i\<close> on.\<close>

fun assignRanks :: "rank_type \<Rightarrow> (nat \<Rightarrow> nat option) \<Rightarrow> nat \<Rightarrow> ranking_stats list \<Rightarrow> ranking list" where
  "assignRanks t m i [] = []"
| "assignRanks t m i (r # rs) =
     ranking_stats.extend r
       \<lparr>rnk_rank = i + 1, rnk_previous_rank = previousRankOf m (rnk_user_id r),
        rnk_badge = badgeFor t i, rnk_is_active = True\<rparr>
     # assignRanks t m (i + 1) rs"

text \<open>\<open>period || this.getCurrentPeriod(type)\<close>: the empty string is falsy.\<close>

definition resolvePeriod :: "platform \<Rightarrow> rank_type \<Rightarrow> string option \<Rightarrow> int \<Rightarrow> string" where
  "resolvePeriod P t period now =
     (case period of
        None \<Rightarrow> getCurrentPeriod P t now
      | Some p \<Rightarrow> if p = [] then getCurrentPeriod P t now else p)"

text \<open>
  \<open>Ranking.calculateRankings(type, period)\<close> at time \<open>now\<close>: the rows it returns or
  the exception it raises, and the store it leaves. An exception of the loop comes
  before the first write. After the loop the objects are sorted, the ranks of the
  previous period are read, ranks and badges are assigned, the stored rows of the type
  and period are deleted and the new rows, if any, inserted.
\<close>

definition replaceSnapshot :: "rank_store \<Rightarrow> rank_type \<Rightarrow> string \<Rightarrow> ranking list \<Rightarrow> rank_store" where
  "replaceSnapshot st t currentPeriod rows =
     st\<lparr>rs_rankings :=
          filter (\<lambda>r. \<not> (rnk_ranking_type r = t \<and> rnk_period r = currentPeriod)) (rs_rankings st)
          @ rows\<rparr>"

definition calculateRankings ::
  "platform \<Rightarrow> int \<Rightarrow> rank_store \<Rightarrow> rank_type \<Rightarrow> string option
     \<Rightarrow> (query_error + ranking list) \<times> rank_store" where
  "calculateRankings P now st t period =
     (let currentPeriod = resolvePeriod P t period now;
          w = getPeriodRange P t currentPeriod;
          users = activeUsers st
      in case statisticsLoop st w users of
           Inl e \<Rightarrow> (Inl e, st)
         | Inr rankings \<Rightarrow>
             (let sorted = sort_cmp compareRankings rankings;
                  previousPeriod = getPreviousPeriod t currentPeriod;
                  previousRankings =
                    filter (\<lambda>r. rnk_ranking_type r = t \<and> rnk_period r = previousPeriod)
                      (rs_rankings st);
                  rows = assignRanks t (previousRankMap previousRankings) 0 sorted
              in (Inr rows, replaceSnapshot st t currentPeriod rows)))"

text \<open>
  \<open>Ranking.getRankingList(type, period, limit, offset)\<close>: the count and the page. The
  included user is required and must be active. Rows of equal rank keep their table
  order.
\<close>

definition listPeriod :: "platform \<Rightarrow> rank_type \<Rightarrow> string option \<Rightarrow> int \<Rightarrow> string" where
  "listPeriod P t period now =
     (case period of
        None \<Rightarrow> (if t = Total then ''total'' else getCurrentPeriod P t now)
      | Some p \<Rightarrow> if p = [] then (if t = Total then ''total'' else getCurrentPeriod P t now) else p)"

definition getRankingList ::
  "platform \<Rightarrow> int \<Rightarrow> rank_store \<Rightarrow> rank_type \<Rightarrow> string option \<Rightarrow> nat \<Rightarrow> nat \<Rightarrow> nat \<times> ranking list" where
  "getRankingList P now st t period limit offset =
     (let p = listPeriod P t period now;
          matching =
            filter (\<lambda>r. rnk_ranking_type r = t \<and> rnk_is_active r \<and> rnk_period r = p
                        \<and> list_ex (\<lambda>u. usr_id u = rnk_user_id r \<and> usr_status u = UserActive)
                             (rs_users st))
              (rs_rankings st)
      in (length matching, take limit (drop offset (sort_key rnk_rank matching))))"

text \<open>\<open>Ranking.getUserRanking(userId, type, period)\<close>: the included user is optional.\<close>

definition getUserRanking ::
  "platform \<Rightarrow> int \<Rightarrow> rank_store \<Rightarrow> nat \<Rightarrow> rank_type \<Rightarrow> string option \<Rightarrow> ranking option" where
  "getUserRanking P now st userId t period =
     (let p = listPeriod P t period now
      in find (\<lambda>r. rnk_user_id r = userId \<and> rnk_ranking_type r = t \<and> rnk_is_active r
                   \<and> rnk_period r = p) (rs_rankings st))"

section \<open>Notions used in the statements about rankings\<close>

text \<open>The snapshot rows of a type and period in a store.\<close>

definition snapshot :: "rank_store \<Rightarrow> rank_type \<Rightarrow> string \<Rightarrow> ranking list" where
  "snapshot st t p = filter (\<lambda>r. rnk_ranking_type r = t \<and> rnk_period r = p) (rs_rankings st)"

text \<open>
  Concrete data. A platform whose local time is UTC, for years from 100 on: the day
  number of a civil date and the civil date of a day number.
\<close>

definition daysFromCivil :: "int \<Rightarrow> int \<Rightarrow> int \<Rightarrow> int" where
  "daysFromCivil y m d =
     (let y' = (if m \<le> 2 then y - 1 else y);
          era = y' div 400;
          yoe = y' - era * 400;
          doy = (153 * (if m > 2 then m - 3 else m + 9) + 2) div 5 + d - 1;
          doe = yoe * 365 + yoe div 4 - yoe div 100 + doy
      in era * 146097 + doe - 719468)"

definition civilFromDays :: "int \<Rightarrow> int \<times> int" where
  "civilFromDays z =
     (let z' = z + 719468;
          era = z' div 146097;
          doe = z' - era * 146097;
          yoe = (doe - doe div 1460 + doe div 36524 - doe div 146096) div 365;
          doy = doe - (365 * yoe + yoe div 4 - yoe div 100);
          mp = (5 * doy + 2) div 153;
          m = (if mp < 10 then mp + 3 else mp - 9)
      in (yoe + era * 400 + (if m \<le> 2 then 1 else 0), m - 1))"

definition ex_platform :: platform where
  "ex_platform =
     \<lparr>date_of = (\<lambda>y m d. (daysFromCivil (y + m div 12) (m mod 12 + 1) 1 + (d - 1)) * 86400000),
      full_year = (\<lambda>t. fst (civilFromDays (t div 86400000))),
      month_of = (\<lambda>t. snd (civilFromDays (t div 86400000))),
      week_day = (\<lambda>t. (t div 86400000 + 4) mod 7)\<rparr>"

definition ex_user :: "nat \<Rightarrow> user_status \<Rightarrow> int \<Rightarrow> user" where
  "ex_user i s score =
     \<lparr>usr_id = i, usr_status = s, usr_level = 1, usr_total_score = score,
      usr_current_score = score, usr_total_recommends = 0, usr_success_recommends = 0,
      usr_failed_recommends = 0, usr_current_streak = 0, usr_max_streak = 0\<rparr>"

text \<open>A row of user \<open>uid\<close> created on 9 March 2024, with a status and a settlement time.\<close>

definition ex_row :: "nat \<Rightarrow> rec_status \<Rightarrow> real option \<Rightarrow> int option \<Rightarrow> recommend_row" where
  "ex_row uid s ret settled =
     \<lparr>row_user_id = uid, row_created_at = 1710000000000, row_status = s,
      row_actual_return = ret, row_settled_at = settled\<rparr>"

text \<open>An empty object for a user without rows, and a snapshot row built from it.\<close>

definition ex_stats :: "nat \<Rightarrow> rank_type \<Rightarrow> string \<Rightarrow> window \<Rightarrow> ranking_stats" where
  "ex_stats uid t p w =
     \<lparr>rnk_user_id = uid, rnk_ranking_type = t, rnk_period = p, rnk_score = 0,
      rnk_period_score = 0, rnk_total_recommends = 0, rnk_success_recommends = 0,
      rnk_win_rate = 0, rnk_avg_return = 0, rnk_max_return = 0, rnk_current_streak = 0,
      rnk_max_streak = 0,
      rnk_period_start = (case w of Window start end \<Rightarrow> Some start | _ \<Rightarrow> None),
      rnk_period_end = (case w of Window start end \<Rightarrow> Some end | _ \<Rightarrow> None)\<rparr>"

definition ex_ranked :: "ranking_stats \<Rightarrow> nat \<Rightarrow> nat option \<Rightarrow> badge option \<Rightarrow> ranking" where
  "ex_ranked s k prev b =
     ranking_stats.extend s
       \<lparr>rnk_rank = k, rnk_previous_rank = prev, rnk_badge = b, rnk_is_active = True\<rparr>"

text \<open>
  One active user with one prediction of March 2024, settled as a success.
\<close>

definition ex_score_store :: rank_store where
  "ex_score_store =
     \<lparr>rs_users = [ex_user 1 UserActive 10],
      rs_recommends = [ex_row 1 Success (Some 4) (Some 1710500000000)],
      rs_rankings = []\<rparr>"

text \<open>
  One active user with six settled predictions of March 2024; from the latest
  settlement back the outcomes are success, success, failure, success, success, success.
\<close>

definition ex_streak_store :: rank_store where
  "ex_streak_store =
     \<lparr>rs_users = [ex_user 1 UserActive 0],
      rs_recommends =
        [ex_row 1 Success (Some 1) (Some 1710100000000),
         ex_row 1 Success (Some 1) (Some 1710200000000),
         ex_row 1 Success (Some 1) (Some 1710300000000),
         ex_row 1 Failed (Some (- 1)) (Some 1710400000000),
         ex_row 1 Success (Some 1) (Some 1710500000000),
         ex_row 1 Success (Some 1) (Some 1710600000000)],
      rs_rankings = []\<rparr>"

text \<open>One active user without predictions, beside an inactive one.\<close>

definition ex_newcomer_store :: rank_store where
  "ex_newcomer_store =
     \<lparr>rs_users = [ex_user 1 UserInactive 40, ex_user 2 UserActive 0],
      rs_recommends = [], rs_rankings = []\<rparr>"

text \<open>Two active users, one with a failed prediction of March 2024; no stored row.\<close>

definition ex_rerun_store :: rank_store where
  "ex_rerun_store =
     \<lparr>rs_users = [ex_user 1 UserActive 20, ex_user 2 UserActive 0],
      rs_recommends = [ex_row 2 Failed (Some (- 3)) (Some 1710500000000)],
      rs_rankings = []\<rparr>"

text \<open>Eleven active users without predictions.\<close>

definition ex_eleven_store :: rank_store where
  "ex_eleven_store =
     \<lparr>rs_users = [ex_user 1 UserActive 0, ex_user 2 UserActive 0, ex_user 3 UserActive 0,
                  ex_user 4 UserActive 0, ex_user 5 UserActive 0, ex_user 6 UserActive 0,
                  ex_user 7 UserActive 0, ex_user 8 UserActive 0, ex_user 9 UserActive 0,
                  ex_user 10 UserActive 0, ex_user 11 UserActive 0],
      rs_recommends = [], rs_rankings = []\<rparr>"

text \<open>
  No active user: a banned user and a stored overall row of that user.
\<close>

definition ex_idle_store :: rank_store where
  "ex_idle_store =
     \<lparr>rs_users = [ex_user 1 UserBanned 30],
      rs_recommends = [],
      rs_rankings =
        [ex_ranked ((ex_stats 1 Total ''total'' Unbounded)\<lparr>rnk_score := 30\<rparr>) 1 None
           (Some TotalChampion)]\<rparr>"

text \<open>
  A stored overall snapshot of three users with ranks 1, 2, 3; the second user has been
  banned since.
\<close>

definition ex_gap_store :: rank_store where
  "ex_gap_store =
     \<lparr>rs_users = [ex_user 1 UserActive 30, ex_user 2 UserBanned 20, ex_user 3 UserActive 10],
      rs_recommends = [],
      rs_rankings =
        [ex_ranked ((ex_stats 1 Total ''total'' Unbounded)\<lparr>rnk_score := 30\<rparr>) 1 None
           (Some TotalChampion),
         ex_ranked ((ex_stats 2 Total ''total'' Unbounded)\<lparr>rnk_score := 20\<rparr>) 2 None
           (Some RunnerUp),
         ex_ranked ((ex_stats 3 Total ''total'' Unbounded)\<lparr>rnk_score := 10\<rparr>) 3 None
           (Some ThirdPlace)]\<rparr>"

section \<open>The statistics update\<close>

lemma updateStats_True:
  "updateStats True u =
     (let s = usr_current_streak u + 1; g = scoreGain s; t = usr_total_score u + g in
      u\<lparr>usr_success_recommends := usr_success_recommends u + 1,
        usr_current_streak := s,
        usr_max_streak := max (usr_max_streak u) s,
        usr_total_score := t,
        usr_current_score := usr_current_score u + g,
        usr_total_recommends := usr_total_recommends u + 1,
        usr_level := max (usr_level u) (t div 1000 + 1)\<rparr>)"
  unfolding updateStats_def Let_def by (cases u) (simp add: max_def)

lemma updateStats_False:
  "updateStats False u =
      u\<lparr>usr_failed_recommends := usr_failed_recommends u + 1,
        usr_current_streak := 0,
        usr_current_score := max 0 (usr_current_score u - 5),
        usr_total_recommends := usr_total_recommends u + 1,
        usr_level := max (usr_level u) (usr_total_score u div 1000 + 1)\<rparr>"
  unfolding updateStats_def Let_def by (cases u) (simp add: max_def)


text \<open>
  C4. On success the success count, the current streak and the prediction count grow by
  one, the maximal streak becomes the maximum of its old value and the new streak, and
  both the total and the spendable score grow by 10, plus 20 from a new streak of 3, plus
  50 from a new streak of 5. On failure the failure count and the prediction count grow
  by one, the streak is reset, the spendable score loses 5 but stays at least 0, and the
  total score is unchanged. In both cases the level is the larger of the old level and
  \<open>floor(totalScore / 1000) + 1\<close> taken on the updated total score, so it never decreases.
\<close>

theorem updateStats_spec:
  "usr_success_recommends (updateStats True u) = usr_success_recommends u + 1
   \<and> usr_current_streak (updateStats True u) = usr_current_streak u + 1
   \<and> usr_total_recommends (updateStats True u) = usr_total_recommends u + 1
   \<and> usr_failed_recommends (updateStats True u) = usr_failed_recommends u
   \<and> usr_max_streak (updateStats True u) = max (usr_max_streak u) (usr_current_streak u + 1)
   \<and> usr_total_score (updateStats True u) =
        usr_total_score u + 10 + (if usr_current_streak u + 1 \<ge> 3 then 20 else 0)
          + (if usr_current_streak u + 1 \<ge> 5 then 50 else 0)
   \<and> usr_current_score (updateStats True u) =
        usr_current_score u + 10 + (if usr_current_streak u + 1 \<ge> 3 then 20 else 0)
          + (if usr_current_streak u + 1 \<ge> 5 then 50 else 0)
   \<and> usr_failed_recommends (updateStats False u) = usr_failed_recommends u + 1
   \<and> usr_total_recommends (updateStats False u) = usr_total_recommends u + 1
   \<and> usr_success_recommends (updateStats False u) = usr_success_recommends u
   \<and> usr_current_streak (updateStats False u) = 0
   \<and> usr_max_streak (updateStats False u) = usr_max_streak u
   \<and> usr_current_score (updateStats False u) = max 0 (usr_current_score u - 5)
   \<and> usr_total_score (updateStats False u) = usr_total_score u
   \<and> usr_level (updateStats b u) =
        max (usr_level u) (usr_total_score (updateStats b u) div 1000 + 1)
   \<and> usr_level u \<le> usr_level (updateStats b u)
   \<and> usr_id (updateStats b u) = usr_id u
   \<and> usr_status (updateStats b u) = usr_status u"
proof -
  have success:
    "usr_success_recommends (updateStats True u) = usr_success_recommends u + 1"
    "usr_current_streak (updateStats True u) = usr_current_streak u + 1"
    "usr_total_recommends (updateStats True u) = usr_total_recommends u + 1"
    "usr_failed_recommends (updateStats True u) = usr_failed_recommends u"
    "usr_max_streak (updateStats True u) = max (usr_max_streak u) (usr_current_streak u + 1)"
    by (simp_all add: updateStats_True Let_def)
  have gain:
    "usr_total_score (updateStats True u) =
        usr_total_score u + 10 + (if usr_current_streak u + 1 \<ge> 3 then 20 else 0)
          + (if usr_current_streak u + 1 \<ge> 5 then 50 else 0)"
    "usr_current_score (updateStats True u) =
        usr_current_score u + 10 + (if usr_current_streak u + 1 \<ge> 3 then 20 else 0)
          + (if usr_current_streak u + 1 \<ge> 5 then 50 else 0)"
    by (simp_all add: updateStats_True Let_def scoreGain_def)
  have failure:
    "usr_failed_recommends (updateStats False u) = usr_failed_recommends u + 1"
    "usr_total_recommends (updateStats False u) = usr_total_recommends u + 1"
    "usr_success_recommends (updateStats False u) = usr_success_recommends u"
    "usr_current_streak (updateStats False u) = 0"
    "usr_max_streak (updateStats False u) = usr_max_streak u"
    "usr_current_score (updateStats False u) = max 0 (usr_current_score u - 5)"
    "usr_total_score (updateStats False u) = usr_total_score u"
    by (simp_all add: updateStats_False)
  have level:
    "usr_level (updateStats b u) =
        max (usr_level u) (usr_total_score (updateStats b u) div 1000 + 1)"
    "usr_level u \<le> usr_level (updateStats b u)"
    by (cases b; simp add: updateStats_True updateStats_False Let_def)+
  have same: "usr_id (updateStats b u) = usr_id u" "usr_status (updateStats b u) = usr_status u"
    by (cases b; simp add: updateStats_True updateStats_False Let_def)+
  from success gain failure level same show ?thesis by (intro conjI)
qed
section \<open>Doubles\<close>

lemma pow2_powi: "pow2 e = 2 powi e"
  by (simp add: pow2_def power_int_def field_simps)

lemma pow2_simps:
  "pow2 0 = 1" "pow2 (e + 1) = 2 * pow2 e" "pow2 (e - 1) = pow2 e / 2"
  "pow2 (int n) = 2 ^ n" "pow2 (- int n) = 1 / 2 ^ n"
proof -
  note p = pow2_powi
  show "pow2 0 = 1" by (simp add: pow2_def)
  show "pow2 (int n) = 2 ^ n" by (simp add: pow2_def)
  show "pow2 (- int n) = 1 / 2 ^ n" by (simp add: p power_int_minus field_simps)
  show "pow2 (e + 1) = 2 * pow2 e" by (simp add: p power_int_add)
  show "pow2 (e - 1) = pow2 e / 2" by (simp add: p power_int_diff)
qed

text \<open>
  The steps of \<open>binExp\<close> suffice for a real between \<open>2 ^ -n\<close> and \<open>2 ^ n\<close>: the result
  is the binary exponent.
\<close>

lemma binExp_bounds:
  "pow2 (- int n) \<le> x \<and> x < pow2 (int n) \<or> 1 \<le> x \<and> x < 2 \<Longrightarrow>
     pow2 (binExp n x) \<le> x \<and> x < pow2 (binExp n x + 1)"
proof (induction n arbitrary: x)
  case 0
  then have "1 \<le> x \<and> x < 2" by (auto simp: pow2_simps)
  then show ?case by (subst binExp.simps, subst binExp.simps) (simp add: pow2_def)
next
  case (Suc n)
  have ge1: "(1::real) \<le> 2 ^ n" by simp
  have prems: "1 / 2 ^ Suc n \<le> x \<and> x < 2 ^ Suc n \<or> 1 \<le> x \<and> x < 2"
    using Suc.prems unfolding pow2_simps(4,5) .
  consider "x \<ge> 2" | "x < 1" | "1 \<le> x \<and> x < 2" by linarith
  then show ?case
  proof cases
    case 1
    then have r: "1 / 2 ^ Suc n \<le> x \<and> x < 2 ^ Suc n" using prems by auto
    have "1 / 2 ^ n \<le> x / 2"
    proof -
      have "1 / 2 ^ n \<le> (1::real)" using ge1 by (simp add: field_simps)
      then show ?thesis using 1 by linarith
    qed
    moreover have "x / 2 < 2 ^ n" using r by simp
    ultimately have "pow2 (binExp n (x / 2)) \<le> x / 2 \<and> x / 2 < pow2 (binExp n (x / 2) + 1)"
      using Suc.IH [of "x / 2"] unfolding pow2_simps(4,5) by blast
    moreover have "binExp (Suc n) x = binExp n (x / 2) + 1"
      using 1 by (subst binExp.simps) simp
    ultimately show ?thesis by (simp add: pow2_powi power_int_add)
  next
    case 2
    then have r: "1 / 2 ^ Suc n \<le> x" using prems by auto
    have a: "1 / 2 ^ n \<le> x * 2" using r by (simp add: field_simps)
    have "pow2 (- int n) \<le> x * 2 \<and> x * 2 < pow2 (int n) \<or> 1 \<le> x * 2 \<and> x * 2 < 2"
    proof (cases "1 \<le> x * 2")
      case True
      then show ?thesis using 2 by simp
    next
      case False
      then have "x * 2 < 2 ^ n" using ge1 by linarith
      then show ?thesis using a unfolding pow2_simps(4,5) by blast
    qed
    then have "pow2 (binExp n (x * 2)) \<le> x * 2 \<and> x * 2 < pow2 (binExp n (x * 2) + 1)"
      by (rule Suc.IH)
    moreover have "binExp (Suc n) x = binExp n (x * 2) - 1"
      using 2 by (subst binExp.simps) simp
    ultimately show ?thesis by (simp add: pow2_powi power_int_add power_int_diff)
  next
    case 3
    then have "binExp (Suc n) x = 0" by (subst binExp.simps) simp
    then show ?thesis using 3 by (simp add: pow2_def)
  qed
qed

text \<open>The integer chosen by \<open>roundEven\<close> is within one half of its argument.\<close>

lemma roundEven_nearest: "\<bar>real_of_int (roundEven y) - y\<bar> \<le> 1 / 2"
  unfolding roundEven_def Let_def by (auto simp: abs_le_iff)

section \<open>Settlement\<close>

lemma settleStatus_eq:
  "settleStatus p a =
     (if js_gt p 0 = js_gt a 0 \<and> js_ge (accuracyScore a p) 50 then Success else Failed)"
proof -
  have "js_ge x 80 \<Longrightarrow> js_ge x 50" for x by (cases x) simp_all
  then show ?thesis by (auto simp: settleStatus_def Let_def)
qed

lemma js_or_truthy: "js_or a (map_option JDec c) = Some fp \<Longrightarrow> truthyVal fp"
  by (cases c) (auto simp: js_or_def truthy_def truthyVal_def split: if_splits option.splits)

lemma js_or_None: "js_or a (map_option JDec c) = None \<longleftrightarrow> \<not> truthy a \<and> c = None"
  by (cases c) (auto simp: js_or_def truthy_def split: option.splits)

lemma settle_Inl: "settle st r ep now = Inl e \<Longrightarrow> e = PriceUnavailable"
  by (auto simp: settle_def Let_def split: option.splits if_splits)

lemma settle_Inl_iff:
  "(\<exists>e. settle st r ep now = Inl e) \<longleftrightarrow> (\<not> truthy ep \<and> rec_current_price r = None)"
proof (cases "js_or ep (map_option JDec (rec_current_price r))")
  case None
  then show ?thesis using js_or_None [of ep "rec_current_price r"] by (simp add: settle_def)
next
  case (Some fp)
  then have "truthyVal fp" by (rule js_or_truthy)
  moreover have "\<not> (\<not> truthy ep \<and> rec_current_price r = None)"
    using Some js_or_None [of ep "rec_current_price r"] by auto
  ultimately show ?thesis using Some by (simp add: settle_def Let_def)
qed

lemma settle_Inr_shape:
  assumes "settle st r ep now = Inr (r', st')"
  shows "st_recommends st' = map (\<lambda>x. if rec_id x = rec_id r then r' else x) (st_recommends st)"
    and "st_next_id st' = st_next_id st"
    and "rec_id r' = rec_id r"
    and "rec_status r' = Success \<or> rec_status r' = Failed"
    and "rec_exit_price r' \<noteq> None" and "rec_actual_return r' \<noteq> None"
    and "rec_settled_at r' \<noteq> None"
  using assms
  by (auto simp: settle_def Let_def save_def saveUser_def settleStatus_eq
           split: option.splits if_splits)

lemma settle_Inr:
  assumes "js_or exitPrice (map_option JDec (rec_current_price r)) = Some fp"
  shows "\<exists>st'. settle st r exitPrice now =
           Inr (r\<lparr>rec_exit_price := Some fp,
                  rec_actual_return := Some (pctReturn (toNumber fp) (toDouble (rec_entry_price r))),
                  rec_settled_at := Some now,
                  rec_status := settleStatus (toDouble (rec_predict_change r))
                                  (pctReturn (toNumber fp) (toDouble (rec_entry_price r)))\<rparr>, st')"
  using assms js_or_truthy [OF assms] by (simp add: settle_def Let_def)

lemma ex_recommend_fields:
  "rec_id ex_recommend = 1" "rec_user_id ex_recommend = 7" "rec_predict_change ex_recommend = 5"
  "rec_entry_price ex_recommend = 100" "rec_current_price ex_recommend = Some 100"
  "rec_status ex_recommend = Active" "rec_end_date ex_recommend = 604800000"
  "settledFields ex_recommend = (None, None, None)"
  by (simp_all add: ex_recommend_def newRecommend_def settledFields_def)

lemma updateStats_id: "usr_id (updateStats b u) = usr_id u"
  by (cases b) (simp_all add: updateStats_True updateStats_False Let_def)

lemma ex_author_id: "usr_id ex_author = 7"
  by (simp add: ex_author_def)

text \<open>Doubles at the prices of the examples. 0.1 and 0.55 are not doubles.\<close>

lemma toDouble_ex:
  "toDouble 5 = Fin 5" "toDouble 100 = Fin 100" "toDouble 110 = Fin 110"
  "toDouble 155 = Fin 155" "toDouble 200 = Fin 200" "toDouble 10 = Fin 10"
  "toDouble 55 = Fin 55" "toDouble 95 = Fin 95" "toDouble 1 = Fin 1"
  unfolding toDouble_def Let_def
  by (simp_all add: binExp.simps) (simp_all add: pow2_def roundEven_def Let_def)

lemma ex_arith:
  "js_sub (Fin 110) (Fin 100) = Fin 10"
  "js_div (Fin 10) (Fin 100) = Fin (3602879701896397 / 2 ^ 55)"
  "js_mul (Fin (3602879701896397 / 2 ^ 55)) (Fin 100) = Fin 10"
  "js_sub (Fin 200) (Fin 100) = Fin 100"
  "js_div (Fin 100) (Fin 100) = Fin 1"
  "js_mul (Fin 1) (Fin 100) = Fin 100"
  "js_sub (Fin 155) (Fin 100) = Fin 55"
  "js_div (Fin 55) (Fin 100) = Fin (2476979795053773 / 2 ^ 52)"
  "js_mul (Fin (2476979795053773 / 2 ^ 52)) (Fin 100) = Fin (55 + 1 / 2 ^ 47)"
  "js_sub (Fin 10) (Fin 5) = Fin 5"
  "js_sub (Fin 100) (Fin 5) = Fin 95"
  "js_sub (Fin 100) (Fin 95) = Fin 5"
  "js_sub (Fin (55 + 1 / 2 ^ 47)) (Fin 5) = Fin (50 + 1 / 2 ^ 47)"
  "js_sub (Fin 100) (Fin (50 + 1 / 2 ^ 47)) = Fin (50 - 1 / 2 ^ 47)"
  unfolding js_sub.simps js_div.simps js_mul.simps toDouble_def Let_def
  by (simp_all add: binExp.simps) (simp_all add: pow2_def roundEven_def Let_def)

lemma ex_abs:
  "js_abs (Fin 5) = Fin 5" "js_abs (Fin 95) = Fin 95"
  "js_abs (Fin (50 + 1 / 2 ^ 47)) = Fin (50 + 1 / 2 ^ 47)"
  by simp_all

lemma ex_return_110: "pctReturn (toNumber (JNum 110)) (toDouble 100) = Fin 10"
  by (simp only: pctReturn_def toNumber_def jsval.case toDouble_ex ex_arith)

lemma ex_return_200: "pctReturn (toNumber (JNum 200)) (toDouble 100) = Fin 100"
  by (simp only: pctReturn_def toNumber_def jsval.case toDouble_ex ex_arith)

lemma ex_return_155: "pctReturn (toNumber (JNum 155)) (toDouble 100) = Fin (55 + 1 / 2 ^ 47)"
  by (simp only: pctReturn_def toNumber_def jsval.case toDouble_ex ex_arith)

lemma ex_accuracy:
  "accuracyScore (Fin 10) (toDouble 5) = Fin 95"
  "accuracyScore (Fin 100) (toDouble 5) = Fin 5"
  "accuracyScore (Fin (55 + 1 / 2 ^ 47)) (toDouble 5) = Fin (50 - 1 / 2 ^ 47)"
  by (simp_all only: accuracyScore_def toDouble_ex ex_arith ex_abs)

lemma ex_status_110: "settleStatus (toDouble 5) (Fin 10) = Success"
  unfolding settleStatus_eq ex_accuracy by (simp add: toDouble_ex)

lemma ex_status_200: "settleStatus (toDouble 5) (Fin 100) = Failed"
  unfolding settleStatus_eq ex_accuracy by (simp add: toDouble_ex)

lemma ex_status_155: "settleStatus (toDouble 5) (Fin (55 + 1 / 2 ^ 47)) = Failed"
  unfolding settleStatus_eq ex_accuracy by (simp add: toDouble_ex)

lemma ex_truthyVal:
  "truthyVal (JNum 110)" "truthyVal (JNum 155)" "truthyVal (JNum 200)"
  "\<not> truthyVal (JNum 0)" "truthyVal (JStr ''0'')" "truthyVal (JDec d)"
  by (simp_all add: truthyVal_def toDouble_ex) (simp add: toDouble_def)

lemma ex_truthy: "truthy (Some (JNum 110))" "truthy (Some (JNum 155))" "truthy (Some (JNum 200))"
  "\<not> truthy (Some (JNum 0))" "truthy (Some (JStr ''0''))" "\<not> truthy None"
  by (simp_all add: truthy_def ex_truthyVal)

lemma ex_settle_110:
  "settle ex_store ex_recommend (Some (JNum 110)) 1000 = Inr (ex_settled, ex_settled_store)"
  by (simp add: settle_def js_or_def ex_truthy ex_truthyVal ex_recommend_fields
        ex_return_110 ex_status_110 Let_def ex_settled_def ex_settled_store_def ex_store_def
        save_def saveUser_def findUser_def ex_author_id updateStats_id)

text \<open>
  With entry price 100, predicted change +5 and exit price 155 the return computed in
  doubles is just above 55 and the accuracy score just below 50: the prediction is
  marked failed.
\<close>

lemma ex_settle_155:
  "\<exists>st'. settle ex_store ex_recommend (Some (JNum 155)) 1000 =
     Inr (ex_recommend\<lparr>rec_exit_price := Some (JNum 155),
            rec_actual_return := Some (Fin (55 + 1 / 2 ^ 47)),
            rec_settled_at := Some 1000, rec_status := Failed\<rparr>, st')"
proof -
  have a: "js_or (Some (JNum 155)) (map_option JDec (rec_current_price ex_recommend)) = Some (JNum 155)"
    by (simp add: js_or_def ex_truthy)
  from settle_Inr [OF a, of ex_store 1000] show ?thesis
    unfolding ex_recommend_fields ex_return_155 ex_status_155 .
qed

text \<open>
  C1, as stated, fails: with entry price 100, predicted change +5 and exit price 200 the
  actual return is 100, both directions are up, the accuracy score is 100 - 95 = 5, and
  the prediction is marked failed.
\<close>

theorem settle_direction_counterexample:
  "settle ex_store ex_recommend (Some (JNum 200)) 1000 =
     Inr (ex_recommend\<lparr>rec_exit_price := Some (JNum 200), rec_actual_return := Some (Fin 100),
            rec_settled_at := Some 1000, rec_status := Failed\<rparr>,
          \<lparr>st_recommends = [ex_recommend\<lparr>rec_exit_price := Some (JNum 200),
               rec_actual_return := Some (Fin 100), rec_settled_at := Some 1000,
               rec_status := Failed\<rparr>],
           st_users = [updateStats False ex_author], st_next_id = 2\<rparr>)
   \<and> js_gt (toDouble (rec_predict_change ex_recommend)) 0 = js_gt (Fin 100) 0"
proof -
  have "js_gt (toDouble (rec_predict_change ex_recommend)) 0 = js_gt (Fin 100) 0"
    by (simp add: ex_recommend_fields toDouble_ex)
  moreover have "settle ex_store ex_recommend (Some (JNum 200)) 1000 =
     Inr (ex_recommend\<lparr>rec_exit_price := Some (JNum 200), rec_actual_return := Some (Fin 100),
            rec_settled_at := Some 1000, rec_status := Failed\<rparr>,
          \<lparr>st_recommends = [ex_recommend\<lparr>rec_exit_price := Some (JNum 200),
               rec_actual_return := Some (Fin 100), rec_settled_at := Some 1000,
               rec_status := Failed\<rparr>],
           st_users = [updateStats False ex_author], st_next_id = 2\<rparr>)"
    by (simp add: settle_def js_or_def ex_truthy ex_truthyVal ex_recommend_fields
        ex_return_200 ex_status_200 Let_def ex_store_def save_def saveUser_def findUser_def
        ex_author_id updateStats_id)
  ultimately show ?thesis by (rule conjI [rotated])
qed

text \<open>
  C1, amended. A settlement with an available final price \<open>fp\<close> sets the exit price, the
  actual return and the settlement time, and sets the status to success exactly when the
  predicted direction (up iff the predicted change is positive) equals the actual
  direction (up iff the actual return is positive) and the accuracy score
  \<open>100 - |actualReturn - predictedChange|\<close>, computed in doubles as the return is, is at
  least 50; otherwise the status is failed.
\<close>

theorem settle_status:
  assumes "js_or exitPrice (map_option JDec (rec_current_price r)) = Some fp"
  shows "\<exists>r' st'. settle st r exitPrice now = Inr (r', st')
           \<and> rec_exit_price r' = Some fp
           \<and> rec_actual_return r' = Some (pctReturn (toNumber fp) (toDouble (rec_entry_price r)))
           \<and> rec_settled_at r' = Some now
           \<and> rec_status r' =
               (if js_gt (toDouble (rec_predict_change r)) 0
                     = js_gt (pctReturn (toNumber fp) (toDouble (rec_entry_price r))) 0
                   \<and> js_ge (accuracyScore (pctReturn (toNumber fp) (toDouble (rec_entry_price r)))
                              (toDouble (rec_predict_change r))) 50
                then Success else Failed)"
proof -
  obtain st' where s: "settle st r exitPrice now =
           Inr (r\<lparr>rec_exit_price := Some fp,
                  rec_actual_return := Some (pctReturn (toNumber fp) (toDouble (rec_entry_price r))),
                  rec_settled_at := Some now,
                  rec_status := settleStatus (toDouble (rec_predict_change r))
                                  (pctReturn (toNumber fp) (toDouble (rec_entry_price r)))\<rparr>, st')"
    using settle_Inr [OF assms] by blast
  show ?thesis
    unfolding s by (simp add: settleStatus_eq)
qed

theorem settle_status_witness:
  "js_or (Some (JNum 110)) (map_option JDec (rec_current_price ex_recommend)) = Some (JNum 110)
   \<and> (\<exists>r' st'. settle ex_store ex_recommend (Some (JNum 110)) 1000 = Inr (r', st')
         \<and> rec_exit_price r' = Some (JNum 110)
         \<and> rec_actual_return r' = Some (Fin 10) \<and> rec_status r' = Success)"
proof -
  have a: "js_or (Some (JNum 110)) (map_option JDec (rec_current_price ex_recommend)) = Some (JNum 110)"
    by (simp add: js_or_def ex_truthy)
  show ?thesis
    using a settle_status [OF a, of ex_store 1000]
    by (auto simp: ex_recommend_fields ex_return_110 ex_accuracy) (simp_all add: toDouble_ex)
qed

text \<open>
  C6, as stated, fails: an exit price override of 0 is given for an existing, active
  prediction without a stored current price, and the settlement raises the missing-price
  error, because the number 0 is falsy in \<open>exitPrice || this.current_price\<close>.
\<close>

theorem settleRecommend_missing_price_counterexample:
  "findByPk ex_unpriced_store 1 = Some ex_unpriced \<and> rec_status ex_unpriced = Active
   \<and> Some (JNum 0) \<noteq> None
   \<and> settleRecommend ex_unpriced_store 1 (Some (JNum 0)) 1000
       = (Some PriceUnavailable, ex_unpriced_store)"
  by (simp add: settleRecommend_def findByPk_def ex_unpriced_store_def ex_unpriced_def
        ex_recommend_fields settle_def js_or_def ex_truthy)

text \<open>
  C6, amended. The manual settlement raises an error if and only if the prediction does
  not exist (not found), its status is not active (not active), or the exit price
  override is absent or falsy (\<open>null\<close>, the number 0, the empty string, \<open>false\<close>) and the
  stored current price is \<open>null\<close> (missing price); when it raises an error the store,
  with every prediction and every user's statistics, is left as it was.
\<close>

theorem settleRecommend_errors:
  "fst (settleRecommend st i exitPrice now) =
     (case findByPk st i of
        None \<Rightarrow> Some NotFound
      | Some r \<Rightarrow>
          if rec_status r \<noteq> Active then Some NotActive
          else if \<not> truthy exitPrice \<and> rec_current_price r = None then Some PriceUnavailable
          else None)
   \<and> (fst (settleRecommend st i exitPrice now) \<noteq> None \<longrightarrow>
        snd (settleRecommend st i exitPrice now) = st)"
proof (cases "findByPk st i")
  case None
  then show ?thesis by (simp add: settleRecommend_def)
next
  case (Some r)
  show ?thesis
  proof (cases "settle st r exitPrice now")
    case (Inl e)
    then have "e = PriceUnavailable" and "\<not> truthy exitPrice \<and> rec_current_price r = None"
      using settle_Inl settle_Inl_iff by blast+
    then show ?thesis using Some Inl by (simp add: settleRecommend_def)
  next
    case (Inr p)
    then have "\<not> (\<not> truthy exitPrice \<and> rec_current_price r = None)"
      using settle_Inl_iff [of st r exitPrice now] by simp
    then show ?thesis using Some Inr by (auto simp: settleRecommend_def split: prod.splits)
  qed
qed

theorem settleRecommend_errors_witness:
  "fst (settleRecommend ex_unpriced_store 1 None 1000) = Some PriceUnavailable
   \<and> fst (settleRecommend ex_unpriced_store 1 None 1000) \<noteq> None
   \<and> snd (settleRecommend ex_unpriced_store 1 None 1000) = ex_unpriced_store
   \<and> fst (settleRecommend ex_unpriced_store 1 (Some (JStr ''0'')) 1000) = None"
proof -
  have f: "findByPk ex_unpriced_store 1 = Some ex_unpriced"
    by (simp add: findByPk_def ex_unpriced_store_def ex_unpriced_def ex_recommend_fields)
  have u: "rec_status ex_unpriced = Active" "rec_current_price ex_unpriced = None"
    by (simp_all add: ex_unpriced_def ex_recommend_fields)
  have e: "fst (settleRecommend ex_unpriced_store 1 None 1000) = Some PriceUnavailable"
    using settleRecommend_errors [of ex_unpriced_store 1 None 1000] f u
    by (simp add: ex_truthy)
  have z: "fst (settleRecommend ex_unpriced_store 1 (Some (JStr ''0'')) 1000) = None"
    using settleRecommend_errors [of ex_unpriced_store 1 "Some (JStr ''0'')" 1000] f u
    by (simp add: ex_truthy)
  from e z show ?thesis
    using settleRecommend_errors [of ex_unpriced_store 1 None 1000] by simp
qed


section \<open>The life cycle of a prediction\<close>

lemma keeps_refl: "keeps st st"
  by (simp add: keeps_def)

lemma keeps_trans: "keeps a b \<Longrightarrow> keeps b c \<Longrightarrow> keeps a c"
  unfolding keeps_def by (metis (no_types, lifting))

lemma find_map_id:
  "(\<And>x. rec_id (f x) = rec_id x) \<Longrightarrow>
     find (\<lambda>r. rec_id r = i) (map f xs) = map_option f (find (\<lambda>r. rec_id r = i) xs)"
  by (induction xs) auto

lemma find_Some_set: "find P xs = Some x \<Longrightarrow> x \<in> set xs \<and> P x"
  by (induction xs) (auto split: if_splits)

lemma find_append_new:
  "find P (xs @ [y]) = (case find P xs of Some x \<Rightarrow> Some x | None \<Rightarrow> if P y then Some y else None)"
  by (induction xs) auto

lemma store_ok_rows:
  "store_ok st \<Longrightarrow> r \<in> set (st_recommends st) \<Longrightarrow> row_ok r \<and> rec_id r < st_next_id st"
  by (auto simp: store_ok_def list_all_iff)

lemma store_ok_unique:
  "store_ok st \<Longrightarrow> r \<in> set (st_recommends st) \<Longrightarrow> x \<in> set (st_recommends st) \<Longrightarrow>
     rec_id x = rec_id r \<Longrightarrow> x = r"
  by (auto simp: store_ok_def distinct_map inj_on_def)

text \<open>Replacing the rows that carry the key of \<open>r'\<close>.\<close>

lemma replace_ok:
  assumes "store_ok st" and "row_ok r'"
    and "st_recommends st' = map (\<lambda>x. if rec_id x = rec_id r' then r' else x) (st_recommends st)"
    and "st_next_id st' = st_next_id st"
  shows "store_ok st'"
proof -
  have ids: "map rec_id (st_recommends st') = map rec_id (st_recommends st)"
    unfolding assms(3) by (induction "st_recommends st") auto
  have "list_all (\<lambda>r. rec_id r < st_next_id st \<and> row_ok r) (st_recommends st')"
    using assms(1,2) unfolding assms(3) store_ok_def list_all_iff by auto
  with ids assms(1,4) show ?thesis by (simp add: store_ok_def)
qed

lemma replace_keeps:
  assumes "st_recommends st' = map (\<lambda>x. if rec_id x = rec_id r' then r' else x) (st_recommends st)"
    and "\<And>x. x \<in> set (st_recommends st) \<Longrightarrow> rec_id x = rec_id r' \<Longrightarrow>
           rec_status x = Active \<or> (settledFields r' = settledFields x \<and> rec_status r' = rec_status x)"
  shows "keeps st st'"
  unfolding keeps_def
proof (intro allI impI)
  fix i r
  assume f: "findByPk st i = Some r" and na: "rec_status r \<noteq> Active"
  let ?f = "\<lambda>x. if rec_id x = rec_id r' then r' else x"
  have "findByPk st' i = map_option ?f (findByPk st i)"
    unfolding findByPk_def assms(1) by (rule find_map_id) simp
  then have g: "findByPk st' i = Some (?f r)" using f by simp
  have "r \<in> set (st_recommends st)" using f find_Some_set unfolding findByPk_def by fastforce
  then have "settledFields (?f r) = settledFields r \<and> rec_status (?f r) = rec_status r"
    using assms(2) [of r] na by auto
  with g show "\<exists>r'. findByPk st' i = Some r' \<and> settledFields r' = settledFields r
              \<and> rec_status r' = rec_status r" by blast
qed

lemma settle_ok:
  assumes "settle st r ep now = Inr (r', st')" and "store_ok st"
  shows "store_ok st'"
proof -
  note s = settle_Inr_shape [OF assms(1)]
  have "row_ok r'" using s(4-7) by (auto simp: row_ok_def)
  then show ?thesis using replace_ok [OF assms(2), of r' st'] s(1,2,3) by simp
qed

lemma settle_keeps:
  assumes "settle st r ep now = Inr (r', st')"
    and "\<And>x. x \<in> set (st_recommends st) \<Longrightarrow> rec_id x = rec_id r \<Longrightarrow> rec_status x = Active"
  shows "keeps st st'"
proof -
  note s = settle_Inr_shape [OF assms(1)]
  show ?thesis
    by (rule replace_keeps [of st' r']) (use s(1,3) assms(2) in auto)
qed

lemma checkExpired_cases:
  assumes "checkExpired st r now = Inr (r', st')"
  shows "(r' = r \<and> st' = st) \<or> (settle st r None now = Inr (r', st') \<and> rec_status r = Active)"
  using assms settle_Inr_shape(4) [of st r None now]
  by (auto simp: checkExpired_def Let_def split: if_splits sum.splits prod.splits)

lemma newRecommend_fields:
  "rec_id (newRecommend i u c p pc h n e) = i"
  "rec_status (newRecommend i u c p pc h n e) = Active"
  "settledFields (newRecommend i u c p pc h n e) = (None, None, None)"
  "row_ok (newRecommend i u c p pc h n e)"
  by (simp_all add: newRecommend_def row_ok_def settledFields_def)

lemma createRecommend_cases:
  "snd (createRecommend st u c p pc h n e) = st
   \<or> snd (createRecommend st u c p pc h n e) =
       st\<lparr>st_recommends := st_recommends st @ [newRecommend (st_next_id st) u c p pc h n e],
          st_next_id := Suc (st_next_id st)\<rparr>"
  by (simp add: createRecommend_def Let_def split: option.split)

lemma map_ok:
  assumes "store_ok st" and "\<And>x. rec_id (f x) = rec_id x" and "\<And>x. row_ok x \<Longrightarrow> row_ok (f x)"
  shows "store_ok (st\<lparr>st_recommends := map f (st_recommends st)\<rparr>)"
proof -
  have "map rec_id (map f (st_recommends st)) = map rec_id (st_recommends st)"
    using assms(2) by (induction "st_recommends st") auto
  moreover have "list_all (\<lambda>r. rec_id r < st_next_id st \<and> row_ok r) (map f (st_recommends st))"
    using assms unfolding store_ok_def list_all_iff by auto
  moreover have "distinct (map rec_id (st_recommends st))"
    using assms(1) by (simp add: store_ok_def)
  ultimately have "distinct (map rec_id (map f (st_recommends st)))
      \<and> list_all (\<lambda>r. rec_id r < st_next_id st \<and> row_ok r) (map f (st_recommends st))"
    by (simp only:)
  then show ?thesis unfolding store_ok_def by (simp del: map_map)
qed

lemma settle_other_rows:
  assumes "settle st r ep now = Inr (r', st')" and "x \<in> set (st_recommends st')"
    and "rec_id x \<noteq> rec_id r"
  shows "x \<in> set (st_recommends st)"
  using assms(2,3) settle_Inr_shape(1,3) [OF assms(1)] by (auto split: if_splits)

lemma settleLoop_inv:
  assumes "store_ok st" and "distinct (map rec_id rs)"
    and "\<forall>r\<in>set rs. \<forall>x\<in>set (st_recommends st). rec_id x = rec_id r \<longrightarrow> rec_status x = Active"
  shows "store_ok (settleLoop st rs now) \<and> keeps st (settleLoop st rs now)"
  using assms
proof (induction rs arbitrary: st)
  case Nil
  then show ?case by (simp add: keeps_refl)
next
  case (Cons r rs)
  have d: "distinct (map rec_id rs)" using Cons.prems(2) by simp
  show ?case
  proof (cases "settle st r None now")
    case (Inl e)
    have eq: "settleLoop st (r # rs) now = settleLoop st rs now" using Inl by simp
    have act: "\<forall>q\<in>set rs. \<forall>x\<in>set (st_recommends st). rec_id x = rec_id q \<longrightarrow> rec_status x = Active"
      using Cons.prems(3) by simp
    show ?thesis unfolding eq by (rule Cons.IH [OF Cons.prems(1) d act])
  next
    case (Inr p)
    obtain r' st' where p: "p = (r', st')" by (cases p)
    have s: "settle st r None now = Inr (r', st')" using Inr p by simp
    have eq: "settleLoop st (r # rs) now = settleLoop st' rs now" using s by simp
    have ok: "store_ok st'" using settle_ok [OF s Cons.prems(1)] .
    have k: "keeps st st'"
    proof (rule settle_keeps [OF s])
      fix x assume "x \<in> set (st_recommends st)" "rec_id x = rec_id r"
      then show "rec_status x = Active" using Cons.prems(3) by simp
    qed
    have act: "\<forall>q\<in>set rs. \<forall>x\<in>set (st_recommends st'). rec_id x = rec_id q \<longrightarrow> rec_status x = Active"
    proof (intro ballI impI)
      fix q x assume q: "q \<in> set rs" and x: "x \<in> set (st_recommends st')" and e: "rec_id x = rec_id q"
      have "rec_id r \<notin> rec_id ` set rs" using Cons.prems(2) by simp
      then have "rec_id q \<noteq> rec_id r" using q by (metis image_eqI)
      then have "rec_id x \<noteq> rec_id r" using e by simp
      then have "x \<in> set (st_recommends st)" by (rule settle_other_rows [OF s x])
      then show "rec_status x = Active" using Cons.prems(3) q e by simp
    qed
    from Cons.IH [OF ok d act]
    have a: "store_ok (settleLoop st' rs now)" and b: "keeps st' (settleLoop st' rs now)"
      by simp_all
    show ?thesis unfolding eq using a keeps_trans [OF k b] by simp
  qed
qed

lemma checkExpired_ok:
  assumes "checkExpired st r now = Inr (r', st')" and "store_ok st"
  shows "store_ok st'"
proof -
  from checkExpired_cases [OF assms(1)]
  consider "r' = r \<and> st' = st" | "settle st r None now = Inr (r', st')" by blast
  then show ?thesis
  proof cases
    case 1
    then show ?thesis using assms(2) by simp
  next
    case 2
    show ?thesis by (rule settle_ok [OF 2 assms(2)])
  qed
qed

lemma checkExpired_keeps:
  assumes "checkExpired st r now = Inr (r', st')"
    and "\<And>x. x \<in> set (st_recommends st) \<Longrightarrow> rec_id x = rec_id r \<Longrightarrow> rec_status x = Active"
  shows "keeps st st'"
proof -
  from checkExpired_cases [OF assms(1)]
  consider "r' = r \<and> st' = st" | "settle st r None now = Inr (r', st')" by blast
  then show ?thesis
  proof cases
    case 1
    then show ?thesis by (simp add: keeps_refl)
  next
    case 2
    show ?thesis by (rule settle_keeps [OF 2]) (rule assms(2))
  qed
qed

lemma checkExpired_other_rows:
  assumes "checkExpired st r now = Inr (r', st')" and "x \<in> set (st_recommends st')"
    and "rec_id x \<noteq> rec_id r"
  shows "x \<in> set (st_recommends st)"
proof -
  from checkExpired_cases [OF assms(1)]
  consider "r' = r \<and> st' = st" | "settle st r None now = Inr (r', st')" by blast
  then show ?thesis
  proof cases
    case 1
    then show ?thesis using assms(2) by simp
  next
    case 2
    show ?thesis by (rule settle_other_rows [OF 2 assms(2,3)])
  qed
qed

lemma checkExpiredLoop_inv:
  assumes "store_ok st" and "distinct (map rec_id rs)"
    and "\<forall>r\<in>set rs. \<forall>x\<in>set (st_recommends st). rec_id x = rec_id r \<longrightarrow> rec_status x = Active"
  shows "store_ok (checkExpiredLoop st rs now) \<and> keeps st (checkExpiredLoop st rs now)"
  using assms
proof (induction rs arbitrary: st)
  case Nil
  then show ?case by (simp add: keeps_refl)
next
  case (Cons r rs)
  have d: "distinct (map rec_id rs)" using Cons.prems(2) by simp
  show ?case
  proof (cases "checkExpired st r now")
    case (Inl e)
    have eq: "checkExpiredLoop st (r # rs) now = checkExpiredLoop st rs now" using Inl by simp
    have act: "\<forall>q\<in>set rs. \<forall>x\<in>set (st_recommends st). rec_id x = rec_id q \<longrightarrow> rec_status x = Active"
      using Cons.prems(3) by simp
    show ?thesis unfolding eq by (rule Cons.IH [OF Cons.prems(1) d act])
  next
    case (Inr p)
    obtain r' st' where p: "p = (r', st')" by (cases p)
    have s: "checkExpired st r now = Inr (r', st')" using Inr p by simp
    have eq: "checkExpiredLoop st (r # rs) now = checkExpiredLoop st' rs now" using s by simp
    have ok: "store_ok st'" using checkExpired_ok [OF s Cons.prems(1)] .
    have k: "keeps st st'"
    proof (rule checkExpired_keeps [OF s])
      fix x assume "x \<in> set (st_recommends st)" "rec_id x = rec_id r"
      then show "rec_status x = Active" using Cons.prems(3) by simp
    qed
    have act: "\<forall>q\<in>set rs. \<forall>x\<in>set (st_recommends st'). rec_id x = rec_id q \<longrightarrow> rec_status x = Active"
    proof (intro ballI impI)
      fix q x assume q: "q \<in> set rs" and x: "x \<in> set (st_recommends st')" and e: "rec_id x = rec_id q"
      have "rec_id r \<notin> rec_id ` set rs" using Cons.prems(2) by simp
      then have "rec_id q \<noteq> rec_id r" using q by (metis image_eqI)
      then have "rec_id x \<noteq> rec_id r" using e by simp
      then have "x \<in> set (st_recommends st)" by (rule checkExpired_other_rows [OF s x])
      then show "rec_status x = Active" using Cons.prems(3) q e by simp
    qed
    from Cons.IH [OF ok d act]
    have a: "store_ok (checkExpiredLoop st' rs now)" and b: "keeps st' (checkExpiredLoop st' rs now)"
      by simp_all
    show ?thesis unfolding eq using a keeps_trans [OF k b] by simp
  qed
qed

lemma active_filter:
  assumes "store_ok st"
  shows "distinct (map rec_id (filter (\<lambda>r. rec_status r = Active \<and> Q r) (st_recommends st)))"
    and "\<forall>r\<in>set (filter (\<lambda>r. rec_status r = Active \<and> Q r) (st_recommends st)).
           \<forall>x\<in>set (st_recommends st). rec_id x = rec_id r \<longrightarrow> rec_status x = Active"
proof -
  show "distinct (map rec_id (filter (\<lambda>r. rec_status r = Active \<and> Q r) (st_recommends st)))"
    using assms by (simp add: store_ok_def distinct_map_filter)
  show "\<forall>r\<in>set (filter (\<lambda>r. rec_status r = Active \<and> Q r) (st_recommends st)).
           \<forall>x\<in>set (st_recommends st). rec_id x = rec_id r \<longrightarrow> rec_status x = Active"
    using store_ok_unique [OF assms] by auto
qed

lemma findByPk_row: "findByPk st i = Some r \<Longrightarrow> r \<in> set (st_recommends st) \<and> rec_id r = i"
  unfolding findByPk_def using find_Some_set by fastforce

lemma step_inv:
  assumes "step st st'" and "store_ok st"
  shows "store_ok st' \<and> keeps st st'"
  using assms
proof (cases rule: step.cases)
  case (step_create userId stockCode currentPrice predictChange holdPeriod now endDate)
  let ?r = "newRecommend (st_next_id st) userId stockCode currentPrice predictChange holdPeriod now endDate"
  from createRecommend_cases [of st userId stockCode currentPrice predictChange holdPeriod now endDate]
  consider "st' = st"
    | "st' = st\<lparr>st_recommends := st_recommends st @ [?r], st_next_id := Suc (st_next_id st)\<rparr>"
    unfolding step_create by auto
  then show ?thesis
  proof cases
    case 1
    then show ?thesis using assms(2) keeps_refl by simp
  next
    case 2
    have fresh: "rec_id ?r \<notin> rec_id ` set (st_recommends st)"
      using store_ok_rows [OF assms(2)] by (force simp: newRecommend_fields)
    have ok: "store_ok st'"
      using assms(2) fresh unfolding 2 store_ok_def list_all_iff
      by (auto simp: newRecommend_fields)
    have "keeps st st'"
      unfolding keeps_def findByPk_def 2 by (auto simp: find_append_new)
    with ok show ?thesis by simp
  qed
next
  case (step_refresh price)
  let ?f = "\<lambda>r. if rec_status r = Active then refreshOne price r else r"
  have id: "\<And>x. rec_id (?f x) = rec_id x" by (simp add: refreshOne_def Let_def)
  have row: "\<And>x. row_ok x \<Longrightarrow> row_ok (?f x)"
    by (auto simp: refreshOne_def Let_def row_ok_def settledFields_def split: if_splits)
  have "store_ok (updateRecommendReturns st price)"
    unfolding updateRecommendReturns_def
    by (rule map_ok [OF assms(2)]) (use id row in simp_all)
  then have ok: "store_ok st'" unfolding step_refresh .
  have "keeps st st'"
    unfolding keeps_def findByPk_def step_refresh updateRecommendReturns_def
    using find_map_id [of ?f, OF id] by auto
  with ok show ?thesis by simp
next
  case (step_update i r currentPrice)
  let ?r = "r\<lparr>rec_current_price := Some currentPrice,
                 rec_current_return :=
                   Some (pctReturn (toDouble currentPrice) (toDouble (rec_entry_price r)))\<rparr>"
  have st': "st' = save ?r st" unfolding step_update by (simp add: updateCurrentReturn_def Let_def)
  have rin: "r \<in> set (st_recommends st)" using findByPk_row [OF step_update(2)] by simp
  then have "row_ok r" using store_ok_rows [OF assms(2)] by simp
  then have rok: "row_ok ?r" by (auto simp: row_ok_def settledFields_def split: if_splits)
  have ok: "store_ok st'"
    by (rule replace_ok [OF assms(2) rok]) (simp_all add: st' save_def)
  have "keeps st st'"
  proof (rule replace_keeps [of st' ?r])
    show "st_recommends st' = map (\<lambda>x. if rec_id x = rec_id ?r then ?r else x) (st_recommends st)"
      by (simp add: st' save_def)
  next
    fix x assume "x \<in> set (st_recommends st)" "rec_id x = rec_id ?r"
    then have "x = r" using store_ok_unique [OF assms(2) rin] by simp
    then show "rec_status x = Active \<or> (settledFields ?r = settledFields x \<and> rec_status ?r = rec_status x)"
      by (simp add: settledFields_def)
  qed
  with ok show ?thesis by simp
next
  case (step_settle i exitPrice now)
  show ?thesis
  proof (cases "fst (settleRecommend st i exitPrice now)")
    case (Some e)
    then have "st' = st" unfolding step_settle
      by (auto simp: settleRecommend_def split: option.splits if_splits sum.splits)
    then show ?thesis using assms(2) keeps_refl by simp
  next
    case None
    then obtain r r' where r: "findByPk st i = Some r" "rec_status r = Active"
      "settle st r exitPrice now = Inr (r', st')"
      unfolding step_settle
      by (auto simp: settleRecommend_def split: option.splits if_splits sum.splits)
    have rin: "r \<in> set (st_recommends st)" using findByPk_row [OF r(1)] by simp
    have "keeps st st'"
      using settle_keeps [OF r(3)] store_ok_unique [OF assms(2) rin] r(2) by blast
    then show ?thesis using settle_ok [OF r(3) assms(2)] by simp
  qed
next
  case (step_settle_job now)
  show ?thesis
    unfolding step_settle_job settleExpiredRecommends_def
    by (rule settleLoop_inv [OF assms(2) active_filter [OF assms(2), of "\<lambda>r. rec_end_date r \<le> now"]])
next
  case (step_check now)
  show ?thesis
    unfolding step_check checkExpiredRecommends_def
    by (rule checkExpiredLoop_inv [OF assms(2) active_filter [OF assms(2), of "\<lambda>r. rec_end_date r < now"]])
next
  case (step_check_one i r now)
  have rin: "r \<in> set (st_recommends st)" using findByPk_row [OF step_check_one(2)] by simp
  show ?thesis
  proof (cases "checkExpired st r now")
    case (Inl e)
    then have "st' = st" unfolding step_check_one by simp
    then show ?thesis using assms(2) keeps_refl by simp
  next
    case (Inr p)
    obtain r' st2 where p: "p = (r', st2)" by (cases p)
    have c: "checkExpired st r now = Inr (r', st2)" using Inr p by simp
    have st': "st' = st2" unfolding step_check_one using Inr p by simp
    from checkExpired_cases [OF c]
    consider "r' = r \<and> st2 = st" | "settle st r None now = Inr (r', st2) \<and> rec_status r = Active"
      by blast
    then show ?thesis
    proof cases
      case 1
      then show ?thesis using st' assms(2) keeps_refl by simp
    next
      case 2
      have "keeps st st2"
      proof (rule settle_keeps)
        show "settle st r None now = Inr (r', st2)" using 2 by simp
      next
        fix x assume "x \<in> set (st_recommends st)" "rec_id x = rec_id r"
        then have "x = r" using store_ok_unique [OF assms(2) rin] by simp
        then show "rec_status x = Active" using 2 by simp
      qed
      moreover have "store_ok st2" using settle_ok [of st r None now r' st2] 2 assms(2) by simp
      ultimately show ?thesis using st' by simp
    qed
  qed
next
  case (step_delete i userId)
  show ?thesis
  proof (cases "fst (deleteRecommend st i userId)")
    case (Some e)
    then have "st' = st" unfolding step_delete
      by (auto simp: deleteRecommend_def split: option.splits if_splits)
    then show ?thesis using assms(2) keeps_refl by simp
  next
    case None
    then obtain r where r: "findByPk st i = Some r" "rec_status r = Active"
      "st' = save (r\<lparr>rec_status := Cancelled\<rparr>) st"
      unfolding step_delete
      by (auto simp: deleteRecommend_def split: option.splits if_splits)
    let ?r = "r\<lparr>rec_status := Cancelled\<rparr>"
    have rin: "r \<in> set (st_recommends st)" using findByPk_row [OF r(1)] by simp
    then have "row_ok r" using store_ok_rows [OF assms(2)] by simp
    then have rok: "row_ok ?r" using r(2) by (auto simp: row_ok_def settledFields_def split: if_splits)
    have ok: "store_ok st'"
      by (rule replace_ok [OF assms(2) rok]) (simp_all add: r(3) save_def)
    have "keeps st st'"
    proof (rule replace_keeps [of st' ?r])
      show "st_recommends st' = map (\<lambda>x. if rec_id x = rec_id ?r then ?r else x) (st_recommends st)"
        by (simp add: r(3) save_def)
    next
      fix x assume "x \<in> set (st_recommends st)" "rec_id x = rec_id ?r"
      then have "x = r" using store_ok_unique [OF assms(2) rin] by simp
      then show "rec_status x = Active \<or> (settledFields ?r = settledFields x \<and> rec_status ?r = rec_status x)"
        using r(2) by simp
    qed
    with ok show ?thesis by simp
  qed
qed

lemma reachable_ok: "reachable st \<Longrightarrow> store_ok st"
proof (induction rule: reachable.induct)
  case (reach_init us)
  then show ?case by (simp add: init_store_def store_ok_def)
next
  case (reach_step st st')
  then show ?case using step_inv by blast
qed

lemma ex_store_reachable: "reachable ex_store"
proof -
  have "snd (createRecommend (init_store [ex_author]) 7 ''600000'' 100 5 OneWeek 0 604800000)
          = ex_store"
    by (simp add: createRecommend_def init_store_def findUser_def ex_author_id ex_store_def
          ex_recommend_def)
  then show ?thesis using reach_step [OF reach_init step_create] by metis
qed

lemma ex_cancelled_reachable: "reachable ex_cancelled_store"
proof -
  have "snd (deleteRecommend ex_store 1 7) = ex_cancelled_store"
    by (simp add: deleteRecommend_def findByPk_def ex_store_def ex_recommend_fields save_def
          ex_cancelled_store_def ex_cancelled_def)
  then show ?thesis using reach_step [OF ex_store_reachable step_delete] by metis
qed

lemma ex_settled_reachable: "reachable ex_settled_store"
proof -
  have "snd (settleRecommend ex_store 1 (Some (JNum 110)) 1000) = ex_settled_store"
    by (simp add: settleRecommend_def findByPk_def ex_store_def ex_recommend_fields
          ex_settle_110 [unfolded ex_store_def])
  then show ?thesis using reach_step [OF ex_store_reachable step_settle] by metis
qed

lemma steps_inv:
  assumes "step\<^sup>*\<^sup>* st st'" and "store_ok st"
  shows "store_ok st' \<and> keeps st st'"
  using assms
proof (induction rule: rtranclp_induct)
  case base
  then show ?case by (simp add: keeps_refl)
next
  case (step y z)
  then have a: "store_ok y" and b: "keeps st y" by simp_all
  from step_inv [OF step.hyps(2) a] have "store_ok z" and "keeps y z" by simp_all
  then show ?case using keeps_trans [OF b] by simp
qed

text \<open>
  C7, as stated, fails: a prediction that is created and then cancelled has left the
  status active, and its exit price, actual return and settlement time are all null.
\<close>

theorem cancelled_counterexample:
  "reachable ex_cancelled_store \<and> findByPk ex_cancelled_store 1 = Some ex_cancelled
   \<and> rec_status ex_cancelled \<noteq> Active
   \<and> rec_exit_price ex_cancelled = None \<and> rec_actual_return ex_cancelled = None
   \<and> rec_settled_at ex_cancelled = None"
  using ex_cancelled_reachable
  by (simp add: findByPk_def ex_cancelled_store_def ex_cancelled_def ex_recommend_def
        newRecommend_def)

text \<open>
  C7, amended. In every reachable store, the exit price, the actual return and the
  settlement time of a prediction are all null if and only if its status is active or
  cancelled, and all set if and only if its status is success or failed; no prediction
  is expired. Once the status is not active, no sequence of steps changes these three
  fields or the status.
\<close>

theorem reachable_settled_fields:
  assumes "reachable st" and "findByPk st i = Some r"
  shows "((rec_exit_price r = None \<and> rec_actual_return r = None \<and> rec_settled_at r = None)
            \<longleftrightarrow> (rec_status r = Active \<or> rec_status r = Cancelled))
       \<and> ((rec_exit_price r \<noteq> None \<and> rec_actual_return r \<noteq> None \<and> rec_settled_at r \<noteq> None)
            \<longleftrightarrow> (rec_status r = Success \<or> rec_status r = Failed))
       \<and> rec_status r \<noteq> Expired
       \<and> (\<forall>st'. step\<^sup>*\<^sup>* st st' \<longrightarrow> rec_status r \<noteq> Active \<longrightarrow>
            (\<exists>r'. findByPk st' i = Some r'
               \<and> rec_exit_price r' = rec_exit_price r
               \<and> rec_actual_return r' = rec_actual_return r
               \<and> rec_settled_at r' = rec_settled_at r
               \<and> rec_status r' = rec_status r))"
proof -
  have ok: "store_ok st" using reachable_ok [OF assms(1)] .
  have "r \<in> set (st_recommends st)" using findByPk_row [OF assms(2)] by simp
  then have row: "row_ok r" using store_ok_rows [OF ok] by simp
  have a: "(rec_exit_price r = None \<and> rec_actual_return r = None \<and> rec_settled_at r = None)
            \<longleftrightarrow> (rec_status r = Active \<or> rec_status r = Cancelled)"
    using row by (auto simp: row_ok_def settledFields_def split: if_splits)
  have b: "(rec_exit_price r \<noteq> None \<and> rec_actual_return r \<noteq> None \<and> rec_settled_at r \<noteq> None)
            \<longleftrightarrow> (rec_status r = Success \<or> rec_status r = Failed)"
    using row by (auto simp: row_ok_def settledFields_def split: if_splits)
  have c: "rec_status r \<noteq> Expired"
    using row by (auto simp: row_ok_def split: if_splits)
  have d: "\<forall>st'. step\<^sup>*\<^sup>* st st' \<longrightarrow> rec_status r \<noteq> Active \<longrightarrow>
            (\<exists>r'. findByPk st' i = Some r'
               \<and> rec_exit_price r' = rec_exit_price r
               \<and> rec_actual_return r' = rec_actual_return r
               \<and> rec_settled_at r' = rec_settled_at r
               \<and> rec_status r' = rec_status r)"
  proof (intro allI impI)
    fix st' assume s: "step\<^sup>*\<^sup>* st st'" and na: "rec_status r \<noteq> Active"
    have "keeps st st'" using steps_inv [OF s ok] by simp
    then obtain r' where "findByPk st' i = Some r'" "settledFields r' = settledFields r"
      "rec_status r' = rec_status r"
      using assms(2) na unfolding keeps_def by blast
    then show "\<exists>r'. findByPk st' i = Some r'
               \<and> rec_exit_price r' = rec_exit_price r
               \<and> rec_actual_return r' = rec_actual_return r
               \<and> rec_settled_at r' = rec_settled_at r
               \<and> rec_status r' = rec_status r"
      by (auto simp: settledFields_def)
  qed
  from a b c d show ?thesis by blast
qed

theorem reachable_settled_fields_witness:
  "reachable ex_settled_store \<and> findByPk ex_settled_store 1 = Some ex_settled
   \<and> step\<^sup>*\<^sup>* ex_settled_store (updateRecommendReturns ex_settled_store (\<lambda>c. Some 120))
   \<and> rec_status ex_settled \<noteq> Active
   \<and> rec_status ex_settled = Success
   \<and> rec_exit_price ex_settled \<noteq> None \<and> rec_actual_return ex_settled \<noteq> None
   \<and> rec_settled_at ex_settled \<noteq> None
   \<and> (\<exists>r'. findByPk (updateRecommendReturns ex_settled_store (\<lambda>c. Some 120)) 1 = Some r'
         \<and> rec_exit_price r' = Some (JNum 110) \<and> rec_actual_return r' = Some (Fin 10)
         \<and> rec_settled_at r' = Some 1000 \<and> rec_status r' = Success)"
proof -
  have f: "findByPk ex_settled_store 1 = Some ex_settled"
    by (simp add: findByPk_def ex_settled_store_def ex_settled_def ex_recommend_fields)
  have s: "step\<^sup>*\<^sup>* ex_settled_store (updateRecommendReturns ex_settled_store (\<lambda>c. Some 120))"
    by (rule r_into_rtranclp) (rule step_refresh)
  have v: "rec_status ex_settled = Success" "rec_exit_price ex_settled = Some (JNum 110)"
    "rec_actual_return ex_settled = Some (Fin 10)" "rec_settled_at ex_settled = Some 1000"
    by (simp_all add: ex_settled_def)
  show ?thesis
    using reachable_settled_fields [OF ex_settled_reachable f] ex_settled_reachable f s v
    by auto
qed
section \<open>The outcome of calculateRankings\<close>

lemma stats_query_column:
  "find (\<lambda>c. c \<notin> set recommendColumns) statsQueryColumns = Some ''current_streak''"
  by (simp add: recommendColumns_def statsQueryColumns_def)

lemma statisticsLoop_cases:
  "statisticsLoop st w users = (if users = [] then Inr [] else Inl (UnknownColumn ''current_streak''))"
  by (cases users) simp_all

lemma calculateRankings_active:
  "activeUsers st \<noteq> [] \<Longrightarrow>
     calculateRankings P now st t period = (Inl (UnknownColumn ''current_streak''), st)"
  by (simp add: calculateRankings_def statisticsLoop_cases Let_def)

lemma calculateRankings_idle:
  "activeUsers st = [] \<Longrightarrow>
     calculateRankings P now st t period
       = (Inr [], replaceSnapshot st t (resolvePeriod P t period now) [])"
  by (simp add: calculateRankings_def statisticsLoop_cases sort_cmp_def Let_def)

text \<open>
  Without an active user the call completes, also for a period that does not parse, and
  deletes the stored rows of the type and period.
\<close>

lemma ex_idle_run:
  "calculateRankings P now ex_idle_store Weekly (Some ''abc'') = (Inr [], ex_idle_store)"
  "calculateRankings P now ex_idle_store Total (Some ''total'')
     = (Inr [], ex_idle_store\<lparr>rs_rankings := []\<rparr>)"
proof -
  have a: "activeUsers ex_idle_store = []"
    by (simp add: activeUsers_def ex_idle_store_def ex_user_def)
  show "calculateRankings P now ex_idle_store Weekly (Some ''abc'') = (Inr [], ex_idle_store)"
    unfolding calculateRankings_idle [OF a]
    by (simp add: replaceSnapshot_def resolvePeriod_def ex_idle_store_def ex_ranked_def
          ex_stats_def ranking_stats.defs)
  show "calculateRankings P now ex_idle_store Total (Some ''total'')
     = (Inr [], ex_idle_store\<lparr>rs_rankings := []\<rparr>)"
    unfolding calculateRankings_idle [OF a]
    by (simp add: replaceSnapshot_def resolvePeriod_def ex_idle_store_def ex_ranked_def
          ex_stats_def ranking_stats.defs)
qed

lemma ex_active:
  "activeUsers ex_score_store \<noteq> []" "activeUsers ex_streak_store \<noteq> []"
  "activeUsers ex_newcomer_store = [ex_user 2 UserActive 0]"
  "activeUsers ex_rerun_store \<noteq> []" "activeUsers ex_eleven_store \<noteq> []"
  by (simp_all add: activeUsers_def ex_score_store_def ex_streak_store_def ex_newcomer_store_def
        ex_rerun_store_def ex_eleven_store_def ex_user_def)


text \<open>
  C2. The expression summed for the period score names \<open>current_streak\<close>, which the
  statistics query addresses in \<open>recommends\<close> and which \<open>recommends\<close> does not have. With
  one active user whose only prediction of March 2024 is a success, the monthly
  computation raises on that column and returns no period score.
\<close>

theorem period_score_query_fails:
  "''current_streak'' \<in> set statsQueryColumns
   \<and> ''current_streak'' \<notin> set recommendColumns
   \<and> calculateRankings ex_platform 0 ex_score_store Monthly (Some ''2024-03'')
       = (Inl (UnknownColumn ''current_streak''), ex_score_store)"
  using calculateRankings_active [OF ex_active(1)]
  by (simp add: recommendColumns_def statsQueryColumns_def)




lemma extend_fields:
  "rnk_user_id (ranking_stats.extend r x) = rnk_user_id r"
  "rnk_score (ranking_stats.extend r x) = rnk_score r"
  "rnk_period_score (ranking_stats.extend r x) = rnk_period_score r"
  "rnk_win_rate (ranking_stats.extend r x) = rnk_win_rate r"
  "rnk_avg_return (ranking_stats.extend r x) = rnk_avg_return r"
  "rnk_ranking_type (ranking_stats.extend r x) = rnk_ranking_type r"
  "rnk_period (ranking_stats.extend r x) = rnk_period r"
  "rnk_current_streak (ranking_stats.extend r x) = rnk_current_streak r"
  "rnk_max_streak (ranking_stats.extend r x) = rnk_max_streak r"
  by (simp_all add: ranking_stats.defs)

lemma extend_more:
  "rnk_rank (ranking_stats.extend r \<lparr>rnk_rank = a, rnk_previous_rank = b, rnk_badge = c, rnk_is_active = d\<rparr>) = a"
  "rnk_previous_rank (ranking_stats.extend r \<lparr>rnk_rank = a, rnk_previous_rank = b, rnk_badge = c, rnk_is_active = d\<rparr>) = b"
  "rnk_badge (ranking_stats.extend r \<lparr>rnk_rank = a, rnk_previous_rank = b, rnk_badge = c, rnk_is_active = d\<rparr>) = c"
  "rnk_is_active (ranking_stats.extend r \<lparr>rnk_rank = a, rnk_previous_rank = b, rnk_badge = c, rnk_is_active = d\<rparr>) = d"
  by (simp_all add: ranking_stats.defs)

section \<open>Reading a snapshot\<close>

text \<open>
  C10. The page of getRankingList contains only stored rows of the type and period whose
  \<open>is_active\<close> flag is set and whose user exists with status active, in ascending order
  of rank; the row of getUserRanking is a stored row of that user, type and period whose
  flag is set. A page can have gaps: for a stored snapshot with the ranks 1, 2, 3 whose
  second user has been banned, the page has the ranks 1, 3.
\<close>

theorem ranking_queries:
  "(\<forall>r\<in>set (snd (getRankingList P now st t period limit offset)).
       r \<in> set (rs_rankings st) \<and> rnk_is_active r \<and> rnk_ranking_type r = t
       \<and> rnk_period r = listPeriod P t period now
       \<and> (\<exists>u\<in>set (rs_users st). usr_id u = rnk_user_id r \<and> usr_status u = UserActive))
   \<and> sorted (map rnk_rank (snd (getRankingList P now st t period limit offset)))
   \<and> (\<forall>r. getUserRanking P now st userId t period = Some r \<longrightarrow>
         r \<in> set (rs_rankings st) \<and> rnk_is_active r \<and> rnk_user_id r = userId
         \<and> rnk_ranking_type r = t \<and> rnk_period r = listPeriod P t period now)
   \<and> map rnk_rank (snapshot ex_gap_store Total ''total'') = [1, 2, 3]
   \<and> map rnk_rank (snd (getRankingList P now ex_gap_store Total (Some ''total'') 50 0)) = [1, 3]"
proof -
  let ?m = "filter (\<lambda>r. rnk_ranking_type r = t \<and> rnk_is_active r
                        \<and> rnk_period r = listPeriod P t period now
                        \<and> list_ex (\<lambda>u. usr_id u = rnk_user_id r \<and> usr_status u = UserActive)
                             (rs_users st)) (rs_rankings st)"
  have page: "snd (getRankingList P now st t period limit offset)
                = take limit (drop offset (sort_key rnk_rank ?m))"
    by (simp add: getRankingList_def Let_def)
  have a: "\<forall>r\<in>set (snd (getRankingList P now st t period limit offset)).
       r \<in> set (rs_rankings st) \<and> rnk_is_active r \<and> rnk_ranking_type r = t
       \<and> rnk_period r = listPeriod P t period now
       \<and> (\<exists>u\<in>set (rs_users st). usr_id u = rnk_user_id r \<and> usr_status u = UserActive)"
  proof
    fix r assume "r \<in> set (snd (getRankingList P now st t period limit offset))"
    then have "r \<in> set (sort_key rnk_rank ?m)"
      unfolding page by (meson in_set_dropD in_set_takeD)
    then have "r \<in> set ?m" by simp
    then show "r \<in> set (rs_rankings st) \<and> rnk_is_active r \<and> rnk_ranking_type r = t
       \<and> rnk_period r = listPeriod P t period now
       \<and> (\<exists>u\<in>set (rs_users st). usr_id u = rnk_user_id r \<and> usr_status u = UserActive)"
      by (auto simp: list_ex_iff)
  qed
  have "sorted (map rnk_rank (sort_key rnk_rank ?m))" by (rule sorted_sort_key)
  then have "sorted (drop offset (map rnk_rank (sort_key rnk_rank ?m)))"
    by (rule sorted_wrt_drop)
  then have "sorted (take limit (drop offset (map rnk_rank (sort_key rnk_rank ?m))))"
    by (rule sorted_wrt_take)
  then have b: "sorted (map rnk_rank (snd (getRankingList P now st t period limit offset)))"
    unfolding page by (simp add: take_map drop_map)
  have c: "\<forall>r. getUserRanking P now st userId t period = Some r \<longrightarrow>
         r \<in> set (rs_rankings st) \<and> rnk_is_active r \<and> rnk_user_id r = userId
         \<and> rnk_ranking_type r = t \<and> rnk_period r = listPeriod P t period now"
    unfolding getUserRanking_def Let_def using find_Some_set by fastforce
  have d: "map rnk_rank (snapshot ex_gap_store Total ''total'') = [1, 2, 3]"
    by (simp add: snapshot_def ex_gap_store_def ex_ranked_def ex_stats_def extend_fields extend_more)
  have e: "map rnk_rank (snd (getRankingList P now ex_gap_store Total (Some ''total'') 50 0)) = [1, 3]"
    by (simp add: getRankingList_def listPeriod_def ex_gap_store_def ex_ranked_def ex_stats_def
          extend_fields extend_more ex_user_def Let_def)
  from a b c d e show ?thesis by (intro conjI)
qed

theorem ranking_queries_witness:
  "getUserRanking ex_platform 0 ex_gap_store 3 Total (Some ''total'')
     = Some (ex_ranked ((ex_stats 3 Total ''total'' Unbounded)\<lparr>rnk_score := 10\<rparr>) 3 None
               (Some ThirdPlace))
   \<and> rnk_is_active (ex_ranked ((ex_stats 3 Total ''total'' Unbounded)\<lparr>rnk_score := 10\<rparr>) 3 None
               (Some ThirdPlace))
   \<and> map rnk_user_id (snd (getRankingList ex_platform 0 ex_gap_store Total (Some ''total'') 50 0))
       = [1, 3]
   \<and> sorted (map rnk_rank (snd (getRankingList ex_platform 0 ex_gap_store Total (Some ''total'') 50 0)))"
proof -
  have g: "getUserRanking ex_platform 0 ex_gap_store 3 Total (Some ''total'')
     = Some (ex_ranked ((ex_stats 3 Total ''total'' Unbounded)\<lparr>rnk_score := 10\<rparr>) 3 None
               (Some ThirdPlace))"
    by (simp add: getUserRanking_def listPeriod_def ex_gap_store_def ex_ranked_def ex_stats_def
          extend_fields extend_more Let_def)
  have l: "map rnk_user_id (snd (getRankingList ex_platform 0 ex_gap_store Total (Some ''total'') 50 0))
       = [1, 3]"
    by (simp add: getRankingList_def listPeriod_def ex_gap_store_def ex_ranked_def ex_stats_def
          extend_fields extend_more ex_user_def Let_def)
  show ?thesis
    using ranking_queries [of ex_platform 0 ex_gap_store Total "Some ''total''" 50 0 3] g l
    by simp
qed


end
